theory Spec2Isabelle
  imports Main "HOL-Library.Sublist"
begin

section \<open>Bulk-add operations of the collections routes\<close>

text \<open>
  A shallow embedding of \<^verbatim>\<open>backend/routes/collections.py\<close>: the in-memory
  \<^verbatim>\<open>operations_store\<close>, the background task that copies companies into a
  target collection one commit at a time, and the two request handlers that register
  an operation and hand it to the task.
\<close>

subsection \<open>Data\<close>

text \<open>
  Collection ids are \<^verbatim>\<open>uuid.UUID\<close> values; the code only compares them, so
  they are numbers here. Operation ids are the strings \<^verbatim>\<open>str(uuid.uuid4())\<close>.
  Company ids are Python ints. The fields \<^verbatim>\<open>progress\<close> and \<^verbatim>\<open>total\<close> only
  ever receive \<^verbatim>\<open>0\<close>, a \<^verbatim>\<open>len(...)\<close> or an \<^verbatim>\<open>enumerate\<close> index plus one, so
  they are naturals.
\<close>

type_synonym uuid = nat

datatype op_status = pending | in_progress | completed | failed

record operation =
  operation_id :: string
  status :: op_status
  progress :: nat
  total :: nat
  error_message :: "string option"

text \<open>
  The two tables the handlers read and write, rows in table order:
  \<^verbatim>\<open>CompanyCollection\<close> (id, collection_name) and
  \<^verbatim>\<open>CompanyCollectionAssociation\<close> (company_id, collection_id).
\<close>

record database =
  collections :: "(uuid \<times> string) list"
  associations :: "(int \<times> uuid) list"

record world =
  operations_store :: "string \<rightharpoonup> operation"
  db :: database

datatype py_exception = KeyError string

text \<open>
  What a handler raises: an \<^verbatim>\<open>HTTPException\<close> with its status code and detail,
  or an exception of the store that the handler does not catch, with its text.
\<close>

datatype handler_exception = HTTPException nat string | Unhandled string

subsection \<open>The membership store\<close>

text \<open>
  Modelled from the spec: the module \<^verbatim>\<open>backend.db.database\<close> (the tables, the
  session and its commit) is not among the sources. The spec gives the association
  table a uniqueness constraint on the pair (company, collection), and the task
  recognises its violation by the constraint's name in the exception text. An
  insertion is \<^verbatim>\<open>db.add(association); db.commit()\<close>: it appends the row, or
  raises. The third argument is what the environment does to this commit: \<open>None\<close>
  lets the store behave as specified, \<open>Some msg\<close> makes the commit raise an exception
  whose \<^verbatim>\<open>str\<close> is \<open>msg\<close> (a lost connection, or a uniqueness violation caused
  by a concurrent writer). \<^verbatim>\<open>db.rollback()\<close> and \<^verbatim>\<open>db.close()\<close> leave the
  committed rows as they are and are taken not to raise.

  A query statement is under the environment in the same way: \<open>all_rows fault rows\<close>
  is \<^verbatim>\<open>query.all()\<close>, which returns the rows or raises the exception with text
  \<open>msg\<close> when \<open>fault\<close> is \<open>Some msg\<close>.
\<close>

definition uq_violation :: string where
  "uq_violation = ''IntegrityError: unique constraint uq_company_collection''"

definition all_rows :: "string option \<Rightarrow> 'a list \<Rightarrow> string + 'a list" where
  "all_rows fault rows = (case fault of Some msg \<Rightarrow> Inl msg | None \<Rightarrow> Inr rows)"

definition add_commit :: "database \<Rightarrow> int \<times> uuid \<Rightarrow> string option \<Rightarrow> string + database" where
  "add_commit d row fault =
     (case fault of
        Some msg \<Rightarrow> Inl msg
      | None \<Rightarrow>
          if row \<in> set (associations d) then Inl uq_violation
          else Inr (d\<lparr>associations := associations d @ [row]\<rparr>))"

text \<open>\<^verbatim>\<open>db.query(CompanyCollection).get(id)\<close>: the row, or \<^verbatim>\<open>None\<close>.\<close>

definition get_collection :: "database \<Rightarrow> uuid \<Rightarrow> string option" where
  "get_collection d cid = map_of (collections d) cid"

text \<open>
  The query of lines 111--116 and 171--176: the association rows whose company is
  among \<open>company_ids\<close> and whose collection is \<open>collection_id\<close>.
\<close>

definition query_associations :: "database \<Rightarrow> int list \<Rightarrow> uuid \<Rightarrow> (int \<times> uuid) list" where
  "query_associations d company_ids collection_id =
     filter (\<lambda>(company, coll). company \<in> set company_ids \<and> coll = collection_id) (associations d)"

subsection \<open>The operations store\<close>

text \<open>
  \<^verbatim>\<open>operations_store[operation_id][field] = value\<close>. On a missing key Python
  raises \<^verbatim>\<open>KeyError\<close>; the task checks the key once, at its first assignment, and
  nothing ever removes a key, so the later assignments find it.
\<close>

definition assign :: "string \<Rightarrow> (operation \<Rightarrow> operation) \<Rightarrow> world \<Rightarrow> world" where
  "assign oid f w =
     (case operations_store w oid of
        None \<Rightarrow> w
      | Some opn \<Rightarrow> w\<lparr>operations_store := (operations_store w)(oid \<mapsto> f opn)\<rparr>)"

subsection \<open>The background task\<close>

text \<open>\<^verbatim>\<open>"uq_company_collection" in str(e)\<close>: a substring test.\<close>

definition is_duplicate :: "string \<Rightarrow> bool" where
  "is_duplicate e = sublist ''uq_company_collection'' e"

text \<open>
  The loop of lines 124--139, at index \<open>i\<close> of \<^verbatim>\<open>enumerate\<close>. It returns the
  worlds that follow each effect, in order (the commit, then the assignment to
  \<^verbatim>\<open>progress\<close>), and the exception that left the loop, if one did: line 139
  re-raises every exception whose text does not name the constraint.
\<close>

fun insert_loop ::
  "string \<Rightarrow> uuid \<Rightarrow> (nat \<Rightarrow> string option) \<Rightarrow> nat \<Rightarrow> int list \<Rightarrow> world \<Rightarrow> world list \<times> string option"
where
  "insert_loop oid target faults i [] w = ([], None)"
| "insert_loop oid target faults i (company_id # rest) w =
     (case add_commit (db w) (company_id, target) (faults i) of
        Inr d \<Rightarrow>
          (let w1 = w\<lparr>db := d\<rparr>;
               w2 = assign oid (\<lambda>opn. opn\<lparr>progress := i + 1\<rparr>) w1;
               (tr, r) = insert_loop oid target faults (Suc i) rest w2
           in (w1 # w2 # tr, r))
      | Inl e \<Rightarrow>
          if \<not> is_duplicate e then ([], Some e)
          else insert_loop oid target faults (Suc i) rest w)"

text \<open>
  Lines 111--119 when the query returns: the requested ids that have no row in the
  target collection.
\<close>

definition companies_to_add :: "database \<Rightarrow> int list \<Rightarrow> uuid \<Rightarrow> int list" where
  "companies_to_add d company_ids target =
     (let existing_associations = query_associations d company_ids target;
          existing_company_ids = set (map fst existing_associations)
      in filter (\<lambda>cid. cid \<notin> existing_company_ids) company_ids)"

text \<open>
  The body of the task for a registered operation: every world the run goes through,
  the last one being the world it leaves behind. \<open>qfault\<close> is what the environment
  does to the query of lines 111--116 and \<open>faults i\<close> what it does to the commit at
  position \<open>i\<close>. The query is inside the \<^verbatim>\<open>try\<close> of line 106: when it raises, the
  handler of lines 143--146 marks the operation failed, with the total of line 108.
\<close>

definition task_trace ::
  "string \<Rightarrow> int list \<Rightarrow> uuid \<Rightarrow> uuid \<Rightarrow> string option \<Rightarrow> (nat \<Rightarrow> string option) \<Rightarrow>
   world \<Rightarrow> world list"
where
  "task_trace oid company_ids source target qfault faults w =
     (let w1 = assign oid (\<lambda>opn. opn\<lparr>status := in_progress\<rparr>) w;
          w2 = assign oid (\<lambda>opn. opn\<lparr>total := length company_ids\<rparr>) w1
      in case all_rows qfault (query_associations (db w2) company_ids target) of
           Inl e \<Rightarrow>
             (let w5 = assign oid (\<lambda>opn. opn\<lparr>status := failed\<rparr>) w2;
                  w6 = assign oid (\<lambda>opn. opn\<lparr>error_message := Some e\<rparr>) w5
              in [w1, w2, w5, w6])
         | Inr existing_associations \<Rightarrow>
             (let existing_company_ids = set (map fst existing_associations);
                  to_add = filter (\<lambda>cid. cid \<notin> existing_company_ids) company_ids;
                  w3 = assign oid (\<lambda>opn. opn\<lparr>total := length to_add\<rparr>) w2;
                  (tr, r) = insert_loop oid target faults 0 to_add w3;
                  w4 = last (w3 # tr)
              in case r of
                   None \<Rightarrow> [w1, w2, w3] @ tr @ [assign oid (\<lambda>opn. opn\<lparr>status := completed\<rparr>) w4]
                 | Some e \<Rightarrow>
                     (let w5 = assign oid (\<lambda>opn. opn\<lparr>status := failed\<rparr>) w4;
                          w6 = assign oid (\<lambda>opn. opn\<lparr>error_message := Some e\<rparr>) w5
                      in [w1, w2, w3] @ tr @ [w5, w6])))"

text \<open>
  \<^verbatim>\<open>add_companies_to_collection_task\<close>. For an operation id that was never
  registered, line 107 raises \<^verbatim>\<open>KeyError\<close>, the handler's line 144 raises it again
  and it leaves the task.
\<close>

definition add_companies_to_collection_task ::
  "string \<Rightarrow> int list \<Rightarrow> uuid \<Rightarrow> uuid \<Rightarrow> string option \<Rightarrow> (nat \<Rightarrow> string option) \<Rightarrow>
   world \<Rightarrow> py_exception + world list"
where
  "add_companies_to_collection_task oid company_ids source target qfault faults w =
     (if operations_store w oid = None then Inl (KeyError oid)
      else Inr (task_trace oid company_ids source target qfault faults w))"

subsection \<open>The request handlers\<close>

text \<open>
  The arguments handed to \<^verbatim>\<open>background_tasks.add_task\<close>. The response carries the
  same operation id and a message, which is not modelled.
\<close>

record background_task =
  task_operation_id :: string
  task_company_ids :: "int list"
  task_source :: uuid
  task_target :: uuid

definition register :: "string \<Rightarrow> nat \<Rightarrow> world \<Rightarrow> world" where
  "register oid n w =
     w\<lparr>operations_store := (operations_store w)(oid \<mapsto>
         \<lparr>operation_id = oid, status = pending, progress = 0, total = n, error_message = None\<rparr>)\<rparr>"

text \<open>
  \<^verbatim>\<open>add_companies_to_collection\<close>; \<open>new_id\<close> is the value of
  \<^verbatim>\<open>str(uuid.uuid4())\<close>. \<open>gfault\<close> is what the environment does to the two
  lookups of lines 162--163 (\<open>Some msg\<close>: one of them raises) and \<open>qfault\<close> what it
  does to the query of lines 171--176, which is run only for a non-empty request. The
  handler catches nothing, so an exception of the store leaves it before anything is
  registered.
\<close>

definition add_companies_to_collection ::
  "uuid \<Rightarrow> uuid \<Rightarrow> int list \<Rightarrow> string option \<Rightarrow> string option \<Rightarrow> string \<Rightarrow> world \<Rightarrow>
   handler_exception + world \<times> background_task"
where
  "add_companies_to_collection source target company_ids gfault qfault new_id w =
     (let started = (register new_id (length company_ids) w,
                     \<lparr>task_operation_id = new_id, task_company_ids = company_ids,
                      task_source = source, task_target = target\<rparr>)
      in case gfault of
           Some e \<Rightarrow> Inl (Unhandled e)
         | None \<Rightarrow>
             if get_collection (db w) source = None \<or> get_collection (db w) target = None
             then Inl (HTTPException 404 ''Collection not found'')
             else if company_ids \<noteq> [] then
               (case all_rows qfault (query_associations (db w) company_ids source) of
                  Inl e \<Rightarrow> Inl (Unhandled e)
                | Inr existing_in_source \<Rightarrow>
                    if card (set (map fst existing_in_source)) \<noteq> length company_ids
                    then Inl (HTTPException 400 ''Some companies not found in source collection'')
                    else Inr started)
             else Inr started)"

text \<open>
  \<^verbatim>\<open>add_all_companies_to_collection\<close>, with \<open>gfault\<close> for the lookups of lines
  218--219 and \<open>qfault\<close> for the query of lines 225--227.
\<close>

definition add_all_companies_to_collection ::
  "uuid \<Rightarrow> uuid \<Rightarrow> string option \<Rightarrow> string option \<Rightarrow> string \<Rightarrow> world \<Rightarrow>
   handler_exception + world \<times> background_task"
where
  "add_all_companies_to_collection source target gfault qfault new_id w =
     (case gfault of
        Some e \<Rightarrow> Inl (Unhandled e)
      | None \<Rightarrow>
          if get_collection (db w) source = None \<or> get_collection (db w) target = None
          then Inl (HTTPException 404 ''Collection not found'')
          else
            (case all_rows qfault (filter (\<lambda>(company, coll). coll = source) (associations (db w))) of
               Inl e \<Rightarrow> Inl (Unhandled e)
             | Inr source_companies \<Rightarrow>
                 (let company_ids = map fst source_companies
                  in Inr (register new_id (length company_ids) w,
                          \<lparr>task_operation_id = new_id, task_company_ids = company_ids,
                           task_source = source, task_target = target\<rparr>))))"

text \<open>\<^verbatim>\<open>get_operation_status\<close>.\<close>

definition get_operation_status :: "string \<Rightarrow> world \<Rightarrow> handler_exception + operation" where
  "get_operation_status oid w =
     (case operations_store w oid of
        None \<Rightarrow> Inl (HTTPException 404 ''Operation not found'')
      | Some opn \<Rightarrow> Inr opn)"

text \<open>Running a dispatched task, and the world a run leaves behind.\<close>

definition run_task ::
  "background_task \<Rightarrow> string option \<Rightarrow> (nat \<Rightarrow> string option) \<Rightarrow> world \<Rightarrow> world list"
where
  "run_task t qfault faults w =
     task_trace (task_operation_id t) (task_company_ids t) (task_source t) (task_target t)
       qfault faults w"

definition final_world :: "world \<Rightarrow> world list \<Rightarrow> world" where
  "final_world w tr = last (w # tr)"

subsection \<open>Auxiliary notions for the statements\<close>

text \<open>
  The world in which the loop ends and the exception that left it, read off the
  result of \<open>insert_loop\<close>; and the world in which the loop starts when the query
  has returned, after the three assignments of lines 107, 108 and 121.
\<close>

definition loop_final :: "string \<Rightarrow> uuid \<Rightarrow> (nat \<Rightarrow> string option) \<Rightarrow> nat \<Rightarrow> int list \<Rightarrow> world \<Rightarrow> world" where
  "loop_final oid target faults i xs w = final_world w (fst (insert_loop oid target faults i xs w))"

definition loop_exn :: "string \<Rightarrow> uuid \<Rightarrow> (nat \<Rightarrow> string option) \<Rightarrow> nat \<Rightarrow> int list \<Rightarrow> world \<Rightarrow> string option" where
  "loop_exn oid target faults i xs w = snd (insert_loop oid target faults i xs w)"

definition prepared :: "string \<Rightarrow> int list \<Rightarrow> uuid \<Rightarrow> world \<Rightarrow> world" where
  "prepared oid company_ids target w =
     assign oid (\<lambda>opn. opn\<lparr>total := length (companies_to_add (db w) company_ids target)\<rparr>)
       (assign oid (\<lambda>opn. opn\<lparr>total := length company_ids\<rparr>)
         (assign oid (\<lambda>opn. opn\<lparr>status := in_progress\<rparr>) w))"

text \<open>
  Two descriptions of a run in terms of the failures alone, for a working set without
  repetitions. \<open>progress_after faults p0 n\<close> is one more than the last position
  below \<open>n\<close> whose commit was not made to fail, and \<open>p0\<close> if there is none;
  \<open>inserted faults xs\<close> lists the members of \<open>xs\<close> at the positions whose commit
  was not made to fail.
\<close>

primrec progress_after :: "(nat \<Rightarrow> string option) \<Rightarrow> nat \<Rightarrow> nat \<Rightarrow> nat" where
  "progress_after faults p0 0 = p0"
| "progress_after faults p0 (Suc n) = (if faults n = None then Suc n else progress_after faults p0 n)"

definition inserted :: "(nat \<Rightarrow> string option) \<Rightarrow> int list \<Rightarrow> int list" where
  "inserted faults xs = map snd (filter (\<lambda>(j, c). faults j = None) (enumerate 0 xs))"

text \<open>
  A run whose query returns, in two parts: the worlds up to the end of the loop, and
  the one or two worlds of the closing assignments (line 141, or lines 144 and 145).
\<close>

definition running_part ::
  "string \<Rightarrow> int list \<Rightarrow> uuid \<Rightarrow> (nat \<Rightarrow> string option) \<Rightarrow> world \<Rightarrow> world list"
where
  "running_part oid company_ids target faults w =
     [assign oid (\<lambda>opn. opn\<lparr>status := in_progress\<rparr>) w,
      assign oid (\<lambda>opn. opn\<lparr>total := length company_ids\<rparr>) (assign oid (\<lambda>opn. opn\<lparr>status := in_progress\<rparr>) w),
      prepared oid company_ids target w] @
     fst (insert_loop oid target faults 0 (companies_to_add (db w) company_ids target)
            (prepared oid company_ids target w))"

definition closing_part ::
  "string \<Rightarrow> int list \<Rightarrow> uuid \<Rightarrow> (nat \<Rightarrow> string option) \<Rightarrow> world \<Rightarrow> world list"
where
  "closing_part oid company_ids target faults w =
     (let wl = loop_final oid target faults 0 (companies_to_add (db w) company_ids target)
                 (prepared oid company_ids target w)
      in case loop_exn oid target faults 0 (companies_to_add (db w) company_ids target)
                (prepared oid company_ids target w) of
           None \<Rightarrow> [assign oid (\<lambda>opn. opn\<lparr>status := completed\<rparr>) wl]
         | Some e \<Rightarrow>
             [assign oid (\<lambda>opn. opn\<lparr>status := failed\<rparr>) wl,
              assign oid (\<lambda>opn. opn\<lparr>error_message := Some e\<rparr>)
                (assign oid (\<lambda>opn. opn\<lparr>status := failed\<rparr>) wl)])"

text \<open>What a pair of successive polls may read of the status and of the error message.\<close>

definition settled :: "operation option \<Rightarrow> operation option \<Rightarrow> bool" where
  "settled a b =
     (case (a, b) of
        (Some oj, Some ok) \<Rightarrow>
          (status oj \<in> {completed, failed} \<longrightarrow> status ok = status oj) \<and>
          (error_message oj \<noteq> None \<longrightarrow> error_message ok = error_message oj) \<and>
          (error_message ok \<noteq> None \<longrightarrow> status ok = failed)
      | _ \<Rightarrow> False)"

text \<open>
  The scenario of the specification: collection \<open>1\<close> (S) has the companies 1, 2
  and 3, collection \<open>2\<close> (T) has company 2, and no operation is registered.
\<close>

definition scenario_world :: world where
  "scenario_world =
     \<lparr>operations_store = Map.empty,
      db = \<lparr>collections = [(1, ''S''), (2, ''T'')],
            associations = [(1, 1), (2, 1), (3, 1), (2, 2)]\<rparr>\<rparr>"

text \<open>
  The same tables with a third collection \<open>3\<close> (U) that has no company.
\<close>

definition scenario_world_u :: world where
  "scenario_world_u =
     scenario_world\<lparr>db := (db scenario_world)\<lparr>collections := collections (db scenario_world) @ [(3, ''U'')]\<rparr>\<rparr>"

section \<open>Basic facts\<close>

lemma db_assign [simp]: "db (assign oid f w) = db w"
  by (simp add: assign_def split: option.split)

lemma store_assign_same:
  "operations_store w oid = Some opn \<Longrightarrow> operations_store (assign oid f w) oid = Some (f opn)"
  by (simp add: assign_def)

lemma poll_iff: "get_operation_status oid w = Inr opn \<longleftrightarrow> operations_store w oid = Some opn"
  by (simp add: get_operation_status_def split: option.split)

lemma insert_loop_append:
  "insert_loop oid target faults i (xs @ ys) w =
     (case insert_loop oid target faults i xs w of
        (tr1, Some e) \<Rightarrow> (tr1, Some e)
      | (tr1, None) \<Rightarrow>
          (case insert_loop oid target faults (i + length xs) ys (last (w # tr1)) of
             (tr2, r) \<Rightarrow> (tr1 @ tr2, r)))"
proof (induction xs arbitrary: i w)
  case Nil
  then show ?case by (simp split: prod.split)
next
  case (Cons x xs)
  show ?case
  proof (cases "add_commit (db w) (x, target) (faults i)")
    case (Inl e)
    then show ?thesis
      by (simp add: Cons.IH split: prod.split option.split)
  next
    case (Inr d)
    then show ?thesis
      by (simp add: Cons.IH Let_def split: prod.split option.split)
  qed
qed

lemma insert_loop_trace_inv:
  "operations_store w oid = Some opn \<Longrightarrow> w' \<in> set (fst (insert_loop oid target faults i xs w)) \<Longrightarrow>
   \<exists>p. (p = progress opn \<or> (i < p \<and> p \<le> i + length xs)) \<and>
       operations_store w' oid = Some (opn\<lparr>progress := p\<rparr>)"
proof (induction xs arbitrary: i w opn)
  case Nil
  then show ?case by simp
next
  case (Cons x xs)
  show ?case
  proof (cases "add_commit (db w) (x, target) (faults i)")
    case (Inl e)
    show ?thesis
    proof (cases "is_duplicate e")
      case True
      with Inl Cons.prems have "w' \<in> set (fst (insert_loop oid target faults (Suc i) xs w))"
        by simp
      from Cons.IH [OF Cons.prems(1) this] obtain p where
        "p = progress opn \<or> (Suc i < p \<and> p \<le> Suc i + length xs)"
        "operations_store w' oid = Some (opn\<lparr>progress := p\<rparr>)"
        by auto
      then show ?thesis by (intro exI [of _ p]) auto
    next
      case False
      with Inl Cons.prems show ?thesis by simp
    qed
  next
    case (Inr d)
    let ?w1 = "w\<lparr>db := d\<rparr>"
    let ?opn2 = "opn\<lparr>progress := Suc i\<rparr>"
    let ?w2 = "assign oid (\<lambda>opn. opn\<lparr>progress := Suc i\<rparr>) ?w1"
    have s1: "operations_store ?w1 oid = Some opn"
      using Cons.prems(1) by simp
    have s2: "operations_store ?w2 oid = Some ?opn2"
      using s1 by (rule store_assign_same)
    from Inr Cons.prems(2)
    consider "w' = ?w1" | "w' = ?w2" | "w' \<in> set (fst (insert_loop oid target faults (Suc i) xs ?w2))"
      by (auto simp: Let_def split: prod.splits)
    then show ?thesis
    proof cases
      case 1
      with s1 show ?thesis by (intro exI [of _ "progress opn"]) simp
    next
      case 2
      with s2 show ?thesis by (intro exI [of _ "Suc i"]) simp
    next
      case 3
      from Cons.IH [OF s2 3] obtain p where
        "p = Suc i \<or> (Suc i < p \<and> p \<le> Suc i + length xs)"
        "operations_store w' oid = Some (?opn2\<lparr>progress := p\<rparr>)"
        by auto
      then show ?thesis by (intro exI [of _ p]) auto
    qed
  qed
qed

lemma last_cons_append: "last (w # tr1 @ tr2) = last (last (w # tr1) # tr2)"
  by (cases tr2) (auto)

lemma loop_exn_append:
  "loop_exn oid target faults i (xs @ ys) w =
     (case loop_exn oid target faults i xs w of
        Some e \<Rightarrow> Some e
      | None \<Rightarrow> loop_exn oid target faults (i + length xs) ys (loop_final oid target faults i xs w))"
  by (simp add: loop_exn_def loop_final_def final_world_def insert_loop_append split: prod.split option.split)

lemma loop_final_append:
  "loop_final oid target faults i (xs @ ys) w =
     (case loop_exn oid target faults i xs w of
        Some e \<Rightarrow> loop_final oid target faults i xs w
      | None \<Rightarrow> loop_final oid target faults (i + length xs) ys (loop_final oid target faults i xs w))"
  unfolding loop_exn_def loop_final_def final_world_def
  by (simp add: insert_loop_append last_cons_append split: prod.split option.split)

lemma loop_single:
  "loop_exn oid target faults n [c] w =
     (case add_commit (db w) (c, target) (faults n) of
        Inr d \<Rightarrow> None
      | Inl e \<Rightarrow> if is_duplicate e then None else Some e)"
  "loop_final oid target faults n [c] w =
     (case add_commit (db w) (c, target) (faults n) of
        Inr d \<Rightarrow> assign oid (\<lambda>opn. opn\<lparr>progress := Suc n\<rparr>) (w\<lparr>db := d\<rparr>)
      | Inl e \<Rightarrow> w)"
  by (simp_all add: loop_exn_def loop_final_def final_world_def Let_def split: sum.split)

lemma inserted_Nil [simp]: "inserted faults [] = []"
  by (simp add: inserted_def)

lemma inserted_snoc:
  "inserted faults (xs @ [c]) = inserted faults xs @ (if faults (length xs) = None then [c] else [])"
  by (simp add: inserted_def enumerate_append_eq)

lemma set_inserted: "set (inserted faults xs) \<subseteq> set xs"
  by (induction xs rule: rev_induct) (auto simp: inserted_snoc)

lemma loop_no_fatal:
  assumes "distinct xs"
    and "\<forall>c\<in>set xs. (c, target) \<notin> set (associations (db w))"
    and "\<forall>j<length xs. \<forall>m. faults j = Some m \<longrightarrow> is_duplicate m"
    and "operations_store w oid = Some opn"
  shows "loop_exn oid target faults 0 xs w = None \<and>
         db (loop_final oid target faults 0 xs w) =
           (db w)\<lparr>associations := associations (db w) @ map (\<lambda>c. (c, target)) (inserted faults xs)\<rparr> \<and>
         operations_store (loop_final oid target faults 0 xs w) =
           (operations_store w)(oid \<mapsto> opn\<lparr>progress := progress_after faults (progress opn) (length xs)\<rparr>)"
  using assms(1-3)
proof (induction xs rule: rev_induct)
  case Nil
  show ?case using assms(4)
    by (auto simp: loop_exn_def loop_final_def final_world_def)
next
  case (snoc c xs)
  let ?w' = "loop_final oid target faults 0 xs w"
  have IH: "loop_exn oid target faults 0 xs w = None"
    "db ?w' = (db w)\<lparr>associations := associations (db w) @ map (\<lambda>c. (c, target)) (inserted faults xs)\<rparr>"
    "operations_store ?w' =
       (operations_store w)(oid \<mapsto> opn\<lparr>progress := progress_after faults (progress opn) (length xs)\<rparr>)"
  proof -
    have "\<forall>j<length xs. \<forall>m. faults j = Some m \<longrightarrow> is_duplicate m"
      using snoc.prems(3) by (auto simp: less_Suc_eq)
    moreover have "distinct xs" "\<forall>c\<in>set xs. (c, target) \<notin> set (associations (db w))"
      using snoc.prems(1,2) by simp_all
    ultimately have *: "loop_exn oid target faults 0 xs w = None \<and>
         db ?w' =
           (db w)\<lparr>associations := associations (db w) @ map (\<lambda>c. (c, target)) (inserted faults xs)\<rparr> \<and>
         operations_store ?w' =
           (operations_store w)(oid \<mapsto> opn\<lparr>progress := progress_after faults (progress opn) (length xs)\<rparr>)"
      using snoc.IH by blast
    from * show "loop_exn oid target faults 0 xs w = None" by blast
    from * show "db ?w' = (db w)\<lparr>associations := associations (db w) @ map (\<lambda>c. (c, target)) (inserted faults xs)\<rparr>" by blast
    from * show "operations_store ?w' =
       (operations_store w)(oid \<mapsto> opn\<lparr>progress := progress_after faults (progress opn) (length xs)\<rparr>)" by blast
  qed
  have fresh: "(c, target) \<notin> set (associations (db ?w'))"
    using snoc.prems set_inserted [of faults xs] by (auto simp: IH(2))
  show ?case
  proof (cases "faults (length xs)")
    case None
    then have ac: "add_commit (db ?w') (c, target) (faults (length xs)) =
        Inr ((db ?w')\<lparr>associations := associations (db ?w') @ [(c, target)]\<rparr>)"
      using fresh by (simp add: add_commit_def)
    have e: "loop_exn oid target faults 0 (xs @ [c]) w = None"
      by (simp add: loop_exn_append IH(1) loop_single ac)
    have f: "loop_final oid target faults 0 (xs @ [c]) w =
        assign oid (\<lambda>opn. opn\<lparr>progress := Suc (length xs)\<rparr>)
          (?w'\<lparr>db := (db ?w')\<lparr>associations := associations (db ?w') @ [(c, target)]\<rparr>\<rparr>)"
      by (simp add: loop_final_append IH(1) loop_single ac)
    show ?thesis
      unfolding e f using None
      by (simp add: inserted_snoc assign_def IH(2) IH(3))
  next
    case (Some m)
    then have dup: "is_duplicate m" using snoc.prems by auto
    have ac: "add_commit (db ?w') (c, target) (faults (length xs)) = Inl m"
      using Some by (simp add: add_commit_def)
    have e: "loop_exn oid target faults 0 (xs @ [c]) w = None"
      by (simp add: loop_exn_append IH(1) loop_single ac dup)
    have f: "loop_final oid target faults 0 (xs @ [c]) w = ?w'"
      by (simp add: loop_final_append IH(1) loop_single ac)
    show ?thesis
      unfolding e f using Some
      by (simp add: inserted_snoc IH(2) IH(3))
  qed
qed

lemma loop_final_poll:
  assumes "operations_store w oid = Some opn"
  shows "\<exists>p. (p = progress opn \<or> (i < p \<and> p \<le> i + length xs)) \<and>
             operations_store (loop_final oid target faults i xs w) oid = Some (opn\<lparr>progress := p\<rparr>)"
proof (cases "fst (insert_loop oid target faults i xs w) = []")
  case True
  then have "loop_final oid target faults i xs w = w"
    by (simp add: loop_final_def final_world_def)
  with assms show ?thesis by (intro exI [of _ "progress opn"]) simp
next
  case False
  then have "loop_final oid target faults i xs w \<in> set (fst (insert_loop oid target faults i xs w))"
    by (simp add: loop_final_def final_world_def)
  from insert_loop_trace_inv [OF assms this] show ?thesis .
qed

lemma companies_to_add_eq:
  "companies_to_add d company_ids target = filter (\<lambda>c. (c, target) \<notin> set (associations d)) company_ids"
  unfolding companies_to_add_def query_associations_def Let_def
  by (rule filter_cong) (auto simp: image_iff)

lemma length_companies_to_add:
  "length (companies_to_add d company_ids target) =
     length company_ids - length (filter (\<lambda>c. (c, target) \<in> set (associations d)) company_ids)"
  using sum_length_filter_compl [of "\<lambda>c. (c, target) \<in> set (associations d)" company_ids]
  by (simp add: companies_to_add_eq)

lemma task_trace_unfold:
  "task_trace oid company_ids source target None faults w =
     [assign oid (\<lambda>opn. opn\<lparr>status := in_progress\<rparr>) w,
      assign oid (\<lambda>opn. opn\<lparr>total := length company_ids\<rparr>) (assign oid (\<lambda>opn. opn\<lparr>status := in_progress\<rparr>) w),
      prepared oid company_ids target w] @
     fst (insert_loop oid target faults 0 (companies_to_add (db w) company_ids target) (prepared oid company_ids target w)) @
     (case loop_exn oid target faults 0 (companies_to_add (db w) company_ids target) (prepared oid company_ids target w) of
        None \<Rightarrow> [assign oid (\<lambda>opn. opn\<lparr>status := completed\<rparr>)
                   (loop_final oid target faults 0 (companies_to_add (db w) company_ids target) (prepared oid company_ids target w))]
      | Some e \<Rightarrow>
          [assign oid (\<lambda>opn. opn\<lparr>status := failed\<rparr>)
             (loop_final oid target faults 0 (companies_to_add (db w) company_ids target) (prepared oid company_ids target w)),
           assign oid (\<lambda>opn. opn\<lparr>error_message := Some e\<rparr>)
             (assign oid (\<lambda>opn. opn\<lparr>status := failed\<rparr>)
               (loop_final oid target faults 0 (companies_to_add (db w) company_ids target) (prepared oid company_ids target w)))])"
  by (simp add: task_trace_def all_rows_def companies_to_add_def prepared_def loop_exn_def
      loop_final_def final_world_def Let_def split: prod.split option.split)

lemma final_world_task:
  "final_world w (task_trace oid company_ids source target None faults w) =
     (case loop_exn oid target faults 0 (companies_to_add (db w) company_ids target) (prepared oid company_ids target w) of
        None \<Rightarrow> assign oid (\<lambda>opn. opn\<lparr>status := completed\<rparr>)
                   (loop_final oid target faults 0 (companies_to_add (db w) company_ids target) (prepared oid company_ids target w))
      | Some e \<Rightarrow>
           assign oid (\<lambda>opn. opn\<lparr>error_message := Some e\<rparr>)
             (assign oid (\<lambda>opn. opn\<lparr>status := failed\<rparr>)
               (loop_final oid target faults 0 (companies_to_add (db w) company_ids target) (prepared oid company_ids target w))))"
  by (simp add: task_trace_unfold final_world_def split: option.split)

text \<open>The run in which the query of lines 111--116 raises.\<close>

lemma task_trace_query_raises:
  "task_trace oid company_ids source target (Some e) faults w =
     [assign oid (\<lambda>opn. opn\<lparr>status := in_progress\<rparr>) w,
      assign oid (\<lambda>opn. opn\<lparr>total := length company_ids\<rparr>)
        (assign oid (\<lambda>opn. opn\<lparr>status := in_progress\<rparr>) w),
      assign oid (\<lambda>opn. opn\<lparr>status := failed\<rparr>)
        (assign oid (\<lambda>opn. opn\<lparr>total := length company_ids\<rparr>)
          (assign oid (\<lambda>opn. opn\<lparr>status := in_progress\<rparr>) w)),
      assign oid (\<lambda>opn. opn\<lparr>error_message := Some e\<rparr>)
        (assign oid (\<lambda>opn. opn\<lparr>status := failed\<rparr>)
          (assign oid (\<lambda>opn. opn\<lparr>total := length company_ids\<rparr>)
            (assign oid (\<lambda>opn. opn\<lparr>status := in_progress\<rparr>) w)))]"
  by (simp add: task_trace_def all_rows_def Let_def)

lemma query_failure_members:
  assumes "operations_store w oid = Some opn"
    and "w' \<in> set (task_trace oid company_ids source target (Some e) faults w)"
  shows "operations_store w' oid = Some (opn\<lparr>status := in_progress\<rparr>) \<or>
         operations_store w' oid = Some (opn\<lparr>status := in_progress, total := length company_ids\<rparr>) \<or>
         operations_store w' oid = Some (opn\<lparr>status := failed, total := length company_ids\<rparr>) \<or>
         operations_store w' oid =
           Some (opn\<lparr>status := failed, total := length company_ids, error_message := Some e\<rparr>)"
proof -
  let ?w1 = "assign oid (\<lambda>opn. opn\<lparr>status := in_progress\<rparr>) w"
  let ?w2 = "assign oid (\<lambda>opn. opn\<lparr>total := length company_ids\<rparr>) ?w1"
  let ?w5 = "assign oid (\<lambda>opn. opn\<lparr>status := failed\<rparr>) ?w2"
  let ?w6 = "assign oid (\<lambda>opn. opn\<lparr>error_message := Some e\<rparr>) ?w5"
  have s1: "operations_store ?w1 oid = Some (opn\<lparr>status := in_progress\<rparr>)"
    by (rule store_assign_same [OF assms(1)])
  have s2: "operations_store ?w2 oid = Some (opn\<lparr>status := in_progress\<rparr>\<lparr>total := length company_ids\<rparr>)"
    by (rule store_assign_same [OF s1])
  have s5: "operations_store ?w5 oid =
      Some (opn\<lparr>status := in_progress\<rparr>\<lparr>total := length company_ids\<rparr>\<lparr>status := failed\<rparr>)"
    by (rule store_assign_same [OF s2])
  have s6: "operations_store ?w6 oid =
      Some (opn\<lparr>status := in_progress\<rparr>\<lparr>total := length company_ids\<rparr>\<lparr>status := failed\<rparr>
              \<lparr>error_message := Some e\<rparr>)"
    by (rule store_assign_same [OF s5])
  from assms(2) consider "w' = ?w1" | "w' = ?w2" | "w' = ?w5" | "w' = ?w6"
    by (auto simp: task_trace_query_raises)
  then show ?thesis
    using s1 s2 s5 s6 by cases simp_all
qed

lemma query_failure_run:
  assumes "operations_store w oid = Some opn"
  shows "operations_store (final_world w (task_trace oid company_ids source target (Some e) faults w)) oid =
           Some (opn\<lparr>status := failed, total := length company_ids, error_message := Some e\<rparr>)"
    and "db (final_world w (task_trace oid company_ids source target (Some e) faults w)) = db w"
proof -
  let ?w1 = "assign oid (\<lambda>opn. opn\<lparr>status := in_progress\<rparr>) w"
  let ?w2 = "assign oid (\<lambda>opn. opn\<lparr>total := length company_ids\<rparr>) ?w1"
  let ?w5 = "assign oid (\<lambda>opn. opn\<lparr>status := failed\<rparr>) ?w2"
  let ?w6 = "assign oid (\<lambda>opn. opn\<lparr>error_message := Some e\<rparr>) ?w5"
  have fin: "final_world w (task_trace oid company_ids source target (Some e) faults w) = ?w6"
    by (simp add: task_trace_query_raises final_world_def)
  have "operations_store ?w6 oid =
      Some (opn\<lparr>status := in_progress\<rparr>\<lparr>total := length company_ids\<rparr>\<lparr>status := failed\<rparr>
              \<lparr>error_message := Some e\<rparr>)"
    by (intro store_assign_same assms)
  then show "operations_store (final_world w (task_trace oid company_ids source target (Some e) faults w)) oid =
           Some (opn\<lparr>status := failed, total := length company_ids, error_message := Some e\<rparr>)"
    by (simp add: fin)
  show "db (final_world w (task_trace oid company_ids source target (Some e) faults w)) = db w"
    by (simp add: fin)
qed

lemma prepared_store:
  "operations_store w oid = Some opn \<Longrightarrow>
   operations_store (prepared oid company_ids target w) =
     (operations_store w)(oid \<mapsto> opn\<lparr>status := in_progress,
        total := length (companies_to_add (db w) company_ids target)\<rparr>)"
  by (simp add: prepared_def assign_def)

lemma prepared_db [simp]: "db (prepared oid company_ids target w) = db w"
  by (simp add: prepared_def)

lemma is_duplicate_uq_violation: "is_duplicate uq_violation"
  unfolding is_duplicate_def uq_violation_def by code_simp

lemma not_duplicate_connection_lost: "\<not> is_duplicate ''connection lost''"
  unfolding is_duplicate_def by code_simp

lemma insert_loop_at:
  assumes "i < length xs"
    and "insert_loop oid target faults 0 (take i xs) w = (tr, None)"
  shows "insert_loop oid target faults 0 xs w =
     (case insert_loop oid target faults i (xs ! i # drop (Suc i) xs) (final_world w tr) of
        (tr2, r) \<Rightarrow> (tr @ tr2, r))"
proof -
  have "xs = take i xs @ (xs ! i # drop (Suc i) xs)"
    using assms(1) by (simp add: id_take_nth_drop [symmetric])
  then have "insert_loop oid target faults 0 xs w =
      insert_loop oid target faults 0 (take i xs @ (xs ! i # drop (Suc i) xs)) w"
    by simp
  also have "\<dots> = (case insert_loop oid target faults i (xs ! i # drop (Suc i) xs) (final_world w tr) of
        (tr2, r) \<Rightarrow> (tr @ tr2, r))"
    using assms by (simp only: insert_loop_append) (simp add: final_world_def min_def)
  finally show ?thesis .
qed

section \<open>The claims\<close>

subsection \<open>C9: progress is the position in the working set plus one\<close>

text \<open>
  C9. When the insertion of the record at zero-based position \<open>i\<close> of the working set
  succeeds, the worker sets the operation's progress to \<open>i + 1\<close>, whatever happened
  at the positions before it: the loop run on the first \<open>i\<close> records may have
  skipped any number of them as duplicates. The trace of the whole loop continues
  the trace \<open>tr\<close> of the first \<open>i\<close> records with the commit and then with a world
  in which a status poll reads progress \<open>i + 1\<close>.
\<close>

theorem progress_is_position_plus_one:
  assumes "i < length xs"
    and "insert_loop oid target faults 0 (take i xs) w = (tr, None)"
    and "add_commit (db (final_world w tr)) (xs ! i, target) (faults i) = Inr d"
    and "get_operation_status oid w = Inr opn"
  shows "\<exists>w2 tr' r.
           insert_loop oid target faults 0 xs w = (tr @ (final_world w tr)\<lparr>db := d\<rparr> # w2 # tr', r) \<and>
           get_operation_status oid w2 = Inr (opn\<lparr>progress := i + 1\<rparr>)"
proof -
  let ?w = "final_world w tr"
  let ?w1 = "?w\<lparr>db := d\<rparr>"
  let ?w2 = "assign oid (\<lambda>opn. opn\<lparr>progress := i + 1\<rparr>) ?w1"
  obtain tr' r where rest: "insert_loop oid target faults (Suc i) (drop (Suc i) xs) ?w2 = (tr', r)"
    by (cases "insert_loop oid target faults (Suc i) (drop (Suc i) xs) ?w2")
  have "insert_loop oid target faults 0 xs w = (tr @ ?w1 # ?w2 # tr', r)"
    using assms(3) rest by (simp add: insert_loop_at [OF assms(1,2)] Let_def)
  moreover have "get_operation_status oid ?w2 = Inr (opn\<lparr>progress := i + 1\<rparr>)"
  proof -
    have "operations_store w oid = Some opn"
      using assms(4) by (simp add: poll_iff)
    from loop_final_poll [OF this, of 0 "take i xs" target faults]
    obtain p where "operations_store ?w oid = Some (opn\<lparr>progress := p\<rparr>)"
      using assms(2) by (auto simp: loop_final_def)
    then have "operations_store ?w1 oid = Some (opn\<lparr>progress := p\<rparr>)"
      by simp
    then have "operations_store ?w2 oid = Some (opn\<lparr>progress := p\<rparr>\<lparr>progress := i + 1\<rparr>)"
      by (rule store_assign_same)
    then show ?thesis by (simp add: poll_iff)
  qed
  ultimately show ?thesis by blast
qed

theorem progress_is_position_plus_one_witness:
  "\<exists>w2 tr' r.
     insert_loop ''op'' 2 ((\<lambda>_. None)(0 := Some uq_violation)) 0 [1, 3] (register ''op'' 2 scenario_world) =
       ([] @ (final_world (register ''op'' 2 scenario_world) [])
              \<lparr>db := (db scenario_world)\<lparr>associations := associations (db scenario_world) @ [(3, 2)]\<rparr>\<rparr> # w2 # tr', r) \<and>
     get_operation_status ''op'' w2 =
       Inr (\<lparr>operation_id = ''op'', status = pending, progress = 0, total = 2, error_message = None\<rparr>
              \<lparr>progress := 1 + 1\<rparr>)"
  using progress_is_position_plus_one [of 1 "[1, 3]" "''op''" 2 "(\<lambda>_. None)(0 := Some uq_violation)"
      "register ''op'' 2 scenario_world" "[]"
      "(db scenario_world)\<lparr>associations := associations (db scenario_world) @ [(3, 2)]\<rparr>"
      "\<lparr>operation_id = ''op'', status = pending, progress = 0, total = 2, error_message = None\<rparr>"]
  by (simp add: is_duplicate_uq_violation add_commit_def final_world_def register_def
      scenario_world_def get_operation_status_def)

lemma final_poll_no_exn:
  assumes "operations_store w oid = Some opn"
    and "loop_exn oid target faults 0 (companies_to_add (db w) company_ids target)
           (prepared oid company_ids target w) = None"
  shows "\<exists>p. (p = progress opn \<or> (0 < p \<and> p \<le> length (companies_to_add (db w) company_ids target))) \<and>
           operations_store (final_world w (task_trace oid company_ids source target None faults w)) oid =
             Some (opn\<lparr>status := completed,
                        total := length (companies_to_add (db w) company_ids target), progress := p\<rparr>)"
proof -
  let ?xs = "companies_to_add (db w) company_ids target"
  let ?w3 = "prepared oid company_ids target w"
  let ?o3 = "opn\<lparr>status := in_progress, total := length ?xs\<rparr>"
  have s3: "operations_store ?w3 oid = Some ?o3"
    by (simp add: prepared_store [OF assms(1)])
  from loop_final_poll [OF s3, of 0 ?xs target faults] obtain p where
    p: "p = progress ?o3 \<or> (0 < p \<and> p \<le> 0 + length ?xs)"
    and sf: "operations_store (loop_final oid target faults 0 ?xs ?w3) oid = Some (?o3\<lparr>progress := p\<rparr>)"
    by blast
  have "operations_store (final_world w (task_trace oid company_ids source target None faults w)) oid =
      Some ((?o3\<lparr>progress := p\<rparr>)\<lparr>status := completed\<rparr>)"
    unfolding final_world_task assms(2) option.case
    by (rule store_assign_same [OF sf])
  with p show ?thesis by (intro exI [of _ p]) simp
qed

lemma task_trace_parts:
  "task_trace oid company_ids source target None faults w =
     running_part oid company_ids target faults w @ closing_part oid company_ids target faults w"
  by (simp add: task_trace_unfold running_part_def closing_part_def Let_def)

lemma running_part_members:
  assumes "operations_store w oid = Some opn"
    and "w' \<in> set (running_part oid company_ids target faults w)"
  shows "\<exists>t p. (t = total opn \<or> t = length company_ids \<or>
                  t = length (companies_to_add (db w) company_ids target)) \<and>
               (p = progress opn \<or>
                  (t = length (companies_to_add (db w) company_ids target) \<and> 0 < p \<and> p \<le> t)) \<and>
               operations_store w' oid = Some (opn\<lparr>status := in_progress, total := t, progress := p\<rparr>)"
proof -
  let ?xs = "companies_to_add (db w) company_ids target"
  let ?w1 = "assign oid (\<lambda>opn. opn\<lparr>status := in_progress\<rparr>) w"
  let ?w2 = "assign oid (\<lambda>opn. opn\<lparr>total := length company_ids\<rparr>) ?w1"
  let ?w3 = "prepared oid company_ids target w"
  let ?o3 = "opn\<lparr>status := in_progress, total := length ?xs\<rparr>"
  have s1: "operations_store ?w1 oid = Some (opn\<lparr>status := in_progress\<rparr>)"
    by (rule store_assign_same [OF assms(1)])
  have s2: "operations_store ?w2 oid = Some (opn\<lparr>status := in_progress\<rparr>\<lparr>total := length company_ids\<rparr>)"
    by (rule store_assign_same [OF s1])
  have s3: "operations_store ?w3 oid = Some ?o3"
    by (simp add: prepared_store [OF assms(1)])
  from assms(2) consider "w' = ?w1" | "w' = ?w2" | "w' = ?w3"
    | "w' \<in> set (fst (insert_loop oid target faults 0 ?xs ?w3))"
    by (auto simp: running_part_def)
  then show ?thesis
  proof cases
    case 1
    with s1 show ?thesis
      by (intro exI [of _ "total opn"] exI [of _ "progress opn"]) simp
  next
    case 2
    with s2 show ?thesis
      by (intro exI [of _ "length company_ids"] exI [of _ "progress opn"]) simp
  next
    case 3
    with s3 show ?thesis
      by (intro exI [of _ "length ?xs"] exI [of _ "progress opn"]) simp
  next
    case 4
    from insert_loop_trace_inv [OF s3 4] obtain p where
      "p = progress ?o3 \<or> (0 < p \<and> p \<le> 0 + length ?xs)"
      "operations_store w' oid = Some (?o3\<lparr>progress := p\<rparr>)"
      by blast
    then show ?thesis
      by (intro exI [of _ "length ?xs"] exI [of _ p]) auto
  qed
qed

lemma closing_part_members:
  assumes "operations_store w oid = Some opn"
    and "w' \<in> set (closing_part oid company_ids target faults w)"
  shows "\<exists>p s m. (p = progress opn \<or> (0 < p \<and> p \<le> length (companies_to_add (db w) company_ids target))) \<and>
               ((s = completed \<and> m = error_message opn) \<or> (s = failed \<and> m = error_message opn) \<or>
                (s = failed \<and> m \<noteq> None)) \<and>
               operations_store w' oid =
                 Some (opn\<lparr>status := s, total := length (companies_to_add (db w) company_ids target),
                            progress := p, error_message := m\<rparr>)"
proof -
  let ?xs = "companies_to_add (db w) company_ids target"
  let ?w3 = "prepared oid company_ids target w"
  let ?o3 = "opn\<lparr>status := in_progress, total := length ?xs\<rparr>"
  let ?wl = "loop_final oid target faults 0 ?xs ?w3"
  have s3: "operations_store ?w3 oid = Some ?o3"
    by (simp add: prepared_store [OF assms(1)])
  from loop_final_poll [OF s3, of 0 ?xs target faults] obtain p where
    p: "p = progress opn \<or> (0 < p \<and> p \<le> length ?xs)"
    and sl: "operations_store ?wl oid = Some (?o3\<lparr>progress := p\<rparr>)"
    by auto
  show ?thesis
  proof (cases "loop_exn oid target faults 0 ?xs ?w3")
    case None
    with assms(2) have "w' = assign oid (\<lambda>opn. opn\<lparr>status := completed\<rparr>) ?wl"
      by (simp add: closing_part_def Let_def)
    then have "operations_store w' oid = Some (?o3\<lparr>progress := p\<rparr>\<lparr>status := completed\<rparr>)"
      using store_assign_same [OF sl] by simp
    with p show ?thesis
      by (intro exI [of _ p] exI [of _ completed] exI [of _ "error_message opn"]) simp
  next
    case (Some e)
    let ?w5 = "assign oid (\<lambda>opn. opn\<lparr>status := failed\<rparr>) ?wl"
    let ?w6 = "assign oid (\<lambda>opn. opn\<lparr>error_message := Some e\<rparr>) ?w5"
    have s5: "operations_store ?w5 oid = Some (?o3\<lparr>progress := p\<rparr>\<lparr>status := failed\<rparr>)"
      by (rule store_assign_same [OF sl])
    have s6: "operations_store ?w6 oid =
        Some (?o3\<lparr>progress := p\<rparr>\<lparr>status := failed\<rparr>\<lparr>error_message := Some e\<rparr>)"
      by (rule store_assign_same [OF s5])
    from Some assms(2) consider "w' = ?w5" | "w' = ?w6"
      by (auto simp: closing_part_def Let_def)
    then show ?thesis
    proof cases
      case 1
      with s5 p show ?thesis
        by (intro exI [of _ p] exI [of _ failed] exI [of _ "error_message opn"]) simp
    next
      case 2
      with s6 p show ?thesis
        by (intro exI [of _ p] exI [of _ failed] exI [of _ "Some e"]) simp
    qed
  qed
qed

lemma trace_progress_le_total:
  assumes "operations_store w oid = Some opn" and "progress opn = 0"
    and "w' \<in> set (task_trace oid company_ids source target qfault faults w)"
  shows "\<exists>opn'. operations_store w' oid = Some opn' \<and> progress opn' \<le> total opn'"
proof (cases qfault)
  case None
  with assms(3) consider "w' \<in> set (running_part oid company_ids target faults w)"
    | "w' \<in> set (closing_part oid company_ids target faults w)"
    by (auto simp: task_trace_parts)
  then show ?thesis
  proof cases
    case 1
    from running_part_members [OF assms(1) 1] assms(2) show ?thesis by auto
  next
    case 2
    from closing_part_members [OF assms(1) 2] assms(2) show ?thesis by auto
  qed
next
  case (Some e)
  with assms(3) have "w' \<in> set (task_trace oid company_ids source target (Some e) faults w)"
    by simp
  from query_failure_members [OF assms(1) this] assms(2) show ?thesis
    by auto
qed

text \<open>The handlers when the store answers every lookup and query.\<close>

lemma add_selected_no_faults:
  "add_companies_to_collection source target company_ids None None new_id w =
     (if get_collection (db w) source = None \<or> get_collection (db w) target = None
      then Inl (HTTPException 404 ''Collection not found'')
      else if company_ids \<noteq> [] \<and>
              card (set (map fst (query_associations (db w) company_ids source))) \<noteq> length company_ids
      then Inl (HTTPException 400 ''Some companies not found in source collection'')
      else Inr (register new_id (length company_ids) w,
                \<lparr>task_operation_id = new_id, task_company_ids = company_ids,
                 task_source = source, task_target = target\<rparr>))"
  by (simp add: add_companies_to_collection_def all_rows_def Let_def)

lemma add_all_no_faults:
  "add_all_companies_to_collection source target None None new_id w =
     (if get_collection (db w) source = None \<or> get_collection (db w) target = None
      then Inl (HTTPException 404 ''Collection not found'')
      else
        (let source_companies = filter (\<lambda>(company, coll). coll = source) (associations (db w));
             company_ids = map fst source_companies
         in Inr (register new_id (length company_ids) w,
                 \<lparr>task_operation_id = new_id, task_company_ids = company_ids,
                  task_source = source, task_target = target\<rparr>)))"
  by (simp add: add_all_companies_to_collection_def all_rows_def Let_def)

text \<open>A handler that returns has met no exception of the store.\<close>

lemma add_selected_returns:
  assumes "add_companies_to_collection source target company_ids gfault sfault new_id w = Inr (w1, t)"
  shows "gfault = None" and "company_ids = [] \<or> sfault = None"
    and "add_companies_to_collection source target company_ids None None new_id w = Inr (w1, t)"
  using assms
  by (auto simp: add_companies_to_collection_def all_rows_def Let_def
      split: option.splits if_splits sum.splits)

lemma add_all_returns:
  assumes "add_all_companies_to_collection source target gfault sfault new_id w = Inr (w1, t)"
  shows "gfault = None" and "sfault = None"
    and "add_all_companies_to_collection source target None None new_id w = Inr (w1, t)"
  using assms
  by (auto simp: add_all_companies_to_collection_def all_rows_def Let_def
      split: option.splits if_splits sum.splits)

lemma dispatch_registers:
  assumes "add_companies_to_collection source target company_ids gfault sfault new_id w = Inr (w1, t) \<or>
           add_all_companies_to_collection source target gfault sfault new_id w = Inr (w1, t)"
  shows "task_operation_id t = new_id \<and> task_target t = target \<and> task_source t = source \<and>
         w1 = register new_id (length (task_company_ids t)) w"
proof -
  from assms have "add_companies_to_collection source target company_ids None None new_id w = Inr (w1, t) \<or>
      add_all_companies_to_collection source target None None new_id w = Inr (w1, t)"
    using add_selected_returns(3) add_all_returns(3) by blast
  then show ?thesis
    by (auto simp: add_selected_no_faults add_all_no_faults Let_def split: if_splits)
qed

lemma register_store:
  "operations_store (register oid n w) oid =
     Some \<lparr>operation_id = oid, status = pending, progress = 0, total = n, error_message = None\<rparr>"
  by (simp add: register_def)

lemma register_db [simp]: "db (register oid n w) = db w"
  by (simp add: register_def)

lemma final_world_mem: "final_world w tr \<in> set (w # tr)"
  by (simp add: final_world_def)

lemma add_all_scenario:
  "add_all_companies_to_collection 1 2 None None ''op'' scenario_world =
     Inr (register ''op'' 3 scenario_world,
          \<lparr>task_operation_id = ''op'', task_company_ids = [1, 2, 3], task_source = 1, task_target = 2\<rparr>)"
  by (simp add: add_all_no_faults get_collection_def scenario_world_def numeral_3_eq_3)

lemma third_in_take_drop:
  assumes "3 \<le> length xs"
  shows "xs ! 2 \<in> set (take 3 xs)" and "xs ! 2 \<in> set (drop 2 xs)"
proof -
  have "take 3 xs ! 2 = xs ! 2" by simp
  moreover have "2 < length (take 3 xs)" using assms by simp
  ultimately show "xs ! 2 \<in> set (take 3 xs)" by (metis nth_mem)
  have "drop 2 xs ! 0 = xs ! 2" using assms by simp
  moreover have "0 < length (drop 2 xs)" using assms by simp
  ultimately show "xs ! 2 \<in> set (drop 2 xs)" by (metis nth_mem)
qed

subsection \<open>C2: progress never exceeds total\<close>

text \<open>
  C2. For an operation registered by either handler, in the world the handler leaves
  and in every world its task goes through afterwards, a status poll finds the
  operation and reads a progress that is at most the total. This holds for every
  behaviour of the store during the query of the task and during the insertions.
\<close>

theorem progress_never_exceeds_total:
  assumes "add_companies_to_collection source target company_ids gfault sfault new_id w = Inr (w1, t) \<or>
           add_all_companies_to_collection source target gfault sfault new_id w = Inr (w1, t)"
  shows "\<forall>w'\<in>set (w1 # run_task t qfault faults w1).
           \<exists>opn. get_operation_status (task_operation_id t) w' = Inr opn \<and> progress opn \<le> total opn"
proof
  fix w'
  assume mem: "w' \<in> set (w1 # run_task t qfault faults w1)"
  note reg = dispatch_registers [OF assms]
  let ?o0 = "\<lparr>operation_id = new_id, status = pending, progress = 0,
               total = length (task_company_ids t), error_message = None\<rparr>"
  have s0: "operations_store w1 new_id = Some ?o0"
    using reg by (simp add: register_store)
  from mem consider "w' = w1"
    | "w' \<in> set (task_trace new_id (task_company_ids t) (task_source t) (task_target t) qfault faults w1)"
    using reg by (auto simp: run_task_def)
  then have "\<exists>opn. operations_store w' new_id = Some opn \<and> progress opn \<le> total opn"
  proof cases
    case 1
    with s0 show ?thesis by simp
  next
    case 2
    from trace_progress_le_total [OF s0 _ 2] show ?thesis by simp
  qed
  then show "\<exists>opn. get_operation_status (task_operation_id t) w' = Inr opn \<and> progress opn \<le> total opn"
    using reg by (simp add: poll_iff)
qed

theorem progress_never_exceeds_total_witness:
  "\<exists>opn. get_operation_status ''op''
            (final_world (register ''op'' 3 scenario_world)
               (run_task \<lparr>task_operation_id = ''op'', task_company_ids = [1, 2, 3],
                          task_source = 1, task_target = 2\<rparr> None
                  (\<lambda>_. None) (register ''op'' 3 scenario_world))) = Inr opn \<and>
          progress opn \<le> total opn"
proof -
  let ?W = "register ''op'' 3 scenario_world"
  let ?T = "\<lparr>task_operation_id = ''op'', task_company_ids = [1, 2, 3], task_source = 1, task_target = 2\<rparr>"
  have "add_companies_to_collection 1 2 [] None None ''op'' scenario_world = Inr (?W, ?T) \<or>
        add_all_companies_to_collection 1 2 None None ''op'' scenario_world = Inr (?W, ?T)"
    by (rule disjI2) (rule add_all_scenario)
  from progress_never_exceeds_total [OF this, where qfault = None and faults = "\<lambda>_. None"]
  have "\<exists>opn. get_operation_status (task_operation_id ?T) (final_world ?W (run_task ?T None (\<lambda>_. None) ?W)) = Inr opn \<and>
          progress opn \<le> total opn"
    by (rule bspec) (rule final_world_mem)
  then show ?thesis by simp
qed

subsection \<open>C3: the total settles at the size of the working set\<close>

text \<open>
  C3, as amended. Take an operation dispatched by either handler with \<open>N\<close> requested
  ids of which \<open>M\<close> already have a row in the target collection, and a run of its
  task in which the query of lines 111--116 returns (the query fault of the run is
  \<open>None\<close>), whatever the store does to the commits. The run has at least three
  worlds; in the first three a poll reads progress 0, and from the third on (the
  assignment of line 121) every poll reads total \<open>N - M\<close>: the total is settled
  before progress leaves 0 and is not revised afterwards. The requested ids need not
  be distinct for this; when they are, \<open>M\<close> is the number of them that belong to
  the target. In the run in which the query raises, the total stays \<open>N\<close>
  (\<open>query_failure_run\<close>, and the counterexample at the end of this theory).
\<close>

theorem total_settles_before_progress:
  assumes "add_companies_to_collection source target company_ids gfault sfault new_id w = Inr (w1, t) \<or>
           add_all_companies_to_collection source target gfault sfault new_id w = Inr (w1, t)"
    and "N = length (task_company_ids t)"
    and "M = length (filter (\<lambda>c. (c, target) \<in> set (associations (db w))) (task_company_ids t))"
  shows "3 \<le> length (run_task t None faults w1) \<and>
         (\<forall>w'\<in>set (take 3 (run_task t None faults w1)).
            \<exists>opn. get_operation_status (task_operation_id t) w' = Inr opn \<and> progress opn = 0) \<and>
         (\<forall>w'\<in>set (drop 2 (run_task t None faults w1)).
            \<exists>opn. get_operation_status (task_operation_id t) w' = Inr opn \<and> total opn = N - M)"
proof -
  note reg = dispatch_registers [OF assms(1)]
  let ?ids = "task_company_ids t"
  let ?o0 = "\<lparr>operation_id = new_id, status = pending, progress = 0,
               total = length ?ids, error_message = None\<rparr>"
  let ?xs = "companies_to_add (db w1) ?ids target"
  let ?w3 = "prepared new_id ?ids target w1"
  let ?loop = "fst (insert_loop new_id target faults 0 ?xs ?w3)"
  let ?A = "assign new_id (\<lambda>opn. opn\<lparr>status := in_progress\<rparr>) w1"
  let ?B = "assign new_id (\<lambda>opn. opn\<lparr>total := length ?ids\<rparr>) ?A"
  have s0: "operations_store w1 new_id = Some ?o0"
    using reg by (simp add: register_store)
  have n: "length ?xs = N - M"
    using reg assms(2,3) by (simp add: length_companies_to_add)
  have run: "run_task t None faults w1 = [?A, ?B, ?w3] @ ?loop @ closing_part new_id ?ids target faults w1"
    using reg by (simp add: run_task_def task_trace_parts running_part_def)
  have s3: "operations_store ?w3 new_id = Some (?o0\<lparr>status := in_progress, total := length ?xs\<rparr>)"
    by (simp add: prepared_store [OF s0])
  have first: "\<exists>opn. operations_store w' new_id = Some opn \<and> progress opn = 0"
    if "w' \<in> set [?A, ?B, ?w3]" for w'
  proof -
    from that have "w' \<in> set (running_part new_id ?ids target faults w1)"
      by (auto simp: running_part_def)
    from running_part_members [OF s0 this] that s3 show ?thesis
      by (auto simp: store_assign_same [OF s0] store_assign_same [OF store_assign_same [OF s0]])
  qed
  have later: "\<exists>opn. operations_store w' new_id = Some opn \<and> total opn = N - M"
    if "w' \<in> set (?w3 # ?loop @ closing_part new_id ?ids target faults w1)" for w'
  proof -
    from that consider "w' = ?w3" | "w' \<in> set ?loop"
      | "w' \<in> set (closing_part new_id ?ids target faults w1)"
      by auto
    then show ?thesis
    proof cases
      case 1
      with s3 n show ?thesis by simp
    next
      case 2
      from insert_loop_trace_inv [OF s3 2] n show ?thesis by auto
    next
      case 3
      from closing_part_members [OF s0 3] n show ?thesis by auto
    qed
  qed
  have oid: "task_operation_id t = new_id"
    using reg by simp
  have t3: "take 3 (run_task t None faults w1) = [?A, ?B, ?w3]"
    by (simp add: run)
  have d2: "drop 2 (run_task t None faults w1) = ?w3 # ?loop @ closing_part new_id ?ids target faults w1"
    by (simp add: run)
  have "3 \<le> length (run_task t None faults w1)"
    by (simp add: run)
  moreover have "\<forall>w'\<in>set (take 3 (run_task t None faults w1)).
      \<exists>opn. get_operation_status (task_operation_id t) w' = Inr opn \<and> progress opn = 0"
    unfolding t3 oid poll_iff using first by blast
  moreover have "\<forall>w'\<in>set (drop 2 (run_task t None faults w1)).
      \<exists>opn. get_operation_status (task_operation_id t) w' = Inr opn \<and> total opn = N - M"
    unfolding d2 oid poll_iff using later by blast
  ultimately show ?thesis by blast
qed

theorem total_settles_before_progress_witness:
  "(\<exists>opn. get_operation_status ''op''
            (run_task \<lparr>task_operation_id = ''op'', task_company_ids = [1, 2, 3],
                       task_source = 1, task_target = 2\<rparr> None
               (\<lambda>_. None) (register ''op'' 3 scenario_world) ! 2) = Inr opn \<and> progress opn = 0) \<and>
   (\<exists>opn. get_operation_status ''op''
            (run_task \<lparr>task_operation_id = ''op'', task_company_ids = [1, 2, 3],
                       task_source = 1, task_target = 2\<rparr> None
               (\<lambda>_. None) (register ''op'' 3 scenario_world) ! 2) = Inr opn \<and> total opn = 3 - 1)"
proof -
  let ?W = "register ''op'' 3 scenario_world"
  let ?T = "\<lparr>task_operation_id = ''op'', task_company_ids = [1, 2, 3], task_source = 1, task_target = 2\<rparr>"
  have d: "add_companies_to_collection 1 2 [] None None ''op'' scenario_world = Inr (?W, ?T) \<or>
        add_all_companies_to_collection 1 2 None None ''op'' scenario_world = Inr (?W, ?T)"
    by (rule disjI2) (rule add_all_scenario)
  have n: "(3::nat) = length (task_company_ids ?T)"
    by simp
  have m: "(1::nat) = length (filter (\<lambda>c. (c, 2) \<in> set (associations (db scenario_world))) (task_company_ids ?T))"
    by (simp add: scenario_world_def)
  from total_settles_before_progress [OF d n m, of "\<lambda>_. None"]
  have len: "3 \<le> length (run_task ?T None (\<lambda>_. None) ?W)"
    and p: "\<forall>w'\<in>set (take 3 (run_task ?T None (\<lambda>_. None) ?W)).
            \<exists>opn. get_operation_status (task_operation_id ?T) w' = Inr opn \<and> progress opn = 0"
    and t: "\<forall>w'\<in>set (drop 2 (run_task ?T None (\<lambda>_. None) ?W)).
            \<exists>opn. get_operation_status (task_operation_id ?T) w' = Inr opn \<and> total opn = 3 - 1"
    by blast+
  from p third_in_take_drop(1) [OF len] t third_in_take_drop(2) [OF len]
  show ?thesis by simp
qed

lemma closing_part_cases:
  assumes "operations_store w oid = Some opn"
  obtains (ends_completed) wc oc where
      "closing_part oid company_ids target faults w = [wc]"
      "operations_store wc oid = Some oc" "status oc = completed"
      "error_message oc = error_message opn"
    | (ends_failed) w5 w6 o5 o6 e where
      "closing_part oid company_ids target faults w = [w5, w6]"
      "operations_store w5 oid = Some o5" "status o5 = failed" "error_message o5 = error_message opn"
      "operations_store w6 oid = Some o6" "status o6 = failed" "error_message o6 = Some e"
proof -
  let ?xs = "companies_to_add (db w) company_ids target"
  let ?w3 = "prepared oid company_ids target w"
  let ?o3 = "opn\<lparr>status := in_progress, total := length ?xs\<rparr>"
  let ?wl = "loop_final oid target faults 0 ?xs ?w3"
  have s3: "operations_store ?w3 oid = Some ?o3"
    by (simp add: prepared_store [OF assms(1)])
  from loop_final_poll [OF s3, of 0 ?xs target faults] obtain p where
    sl: "operations_store ?wl oid = Some (?o3\<lparr>progress := p\<rparr>)"
    by auto
  show thesis
  proof (cases "loop_exn oid target faults 0 ?xs ?w3")
    case None
    let ?wc = "assign oid (\<lambda>opn. opn\<lparr>status := completed\<rparr>) ?wl"
    have "closing_part oid company_ids target faults w = [?wc]"
      using None by (simp add: closing_part_def Let_def)
    moreover have "operations_store ?wc oid = Some (?o3\<lparr>progress := p\<rparr>\<lparr>status := completed\<rparr>)"
      by (rule store_assign_same [OF sl])
    ultimately show thesis
      by (rule ends_completed) simp_all
  next
    case (Some e)
    let ?w5 = "assign oid (\<lambda>opn. opn\<lparr>status := failed\<rparr>) ?wl"
    let ?w6 = "assign oid (\<lambda>opn. opn\<lparr>error_message := Some e\<rparr>) ?w5"
    have s5: "operations_store ?w5 oid = Some (?o3\<lparr>progress := p\<rparr>\<lparr>status := failed\<rparr>)"
      by (rule store_assign_same [OF sl])
    have s6: "operations_store ?w6 oid =
        Some (?o3\<lparr>progress := p\<rparr>\<lparr>status := failed\<rparr>\<lparr>error_message := Some e\<rparr>)"
      by (rule store_assign_same [OF s5])
    have "closing_part oid company_ids target faults w = [?w5, ?w6]"
      using Some by (simp add: closing_part_def Let_def)
    then show thesis
      using s5 _ _ s6 by (rule ends_failed) simp_all
  qed
qed

lemma ordered_pairs_append:
  assumes pre: "\<And>x y. x \<in> set pre \<Longrightarrow> y \<in> set (pre @ fin) \<Longrightarrow> R x y"
    and fin: "\<And>j k. j \<le> k \<Longrightarrow> k < length fin \<Longrightarrow> R (fin ! j) (fin ! k)"
    and "j \<le> k" and "k < length (pre @ fin)"
  shows "R ((pre @ fin) ! j) ((pre @ fin) ! k)"
proof (cases "j < length pre")
  case True
  then have "(pre @ fin) ! j \<in> set pre"
    by (simp add: nth_append)
  moreover have "(pre @ fin) ! k \<in> set (pre @ fin)"
    using assms(4) by (rule nth_mem)
  ultimately show ?thesis by (rule pre)
next
  case False
  then have "(pre @ fin) ! j = fin ! (j - length pre)" "(pre @ fin) ! k = fin ! (k - length pre)"
    using assms(3) by (simp_all add: nth_append)
  moreover have "j - length pre \<le> k - length pre" "k - length pre < length fin"
    using False assms(3,4) by simp_all
  ultimately show ?thesis by (simp add: fin)
qed

lemma run_settled_returns:
  assumes s0: "operations_store w oid = Some opn"
    and st: "status opn = pending" and er: "error_message opn = None"
    and "j \<le> k" and "k < length (w # task_trace oid company_ids source target None faults w)"
  shows "settled (operations_store ((w # task_trace oid company_ids source target None faults w) ! j) oid)
                 (operations_store ((w # task_trace oid company_ids source target None faults w) ! k) oid)"
proof -
  let ?pre = "w # running_part oid company_ids target faults w"
  let ?fin = "closing_part oid company_ids target faults w"
  let ?R = "\<lambda>x y. settled (operations_store x oid) (operations_store y oid)"
  have tr: "w # task_trace oid company_ids source target None faults w = ?pre @ ?fin"
    by (simp add: task_trace_parts)
  have early: "\<exists>opn'. operations_store x oid = Some opn' \<and> status opn' \<in> {pending, in_progress} \<and>
      error_message opn' = None" if "x \<in> set ?pre" for x
  proof -
    from that consider "x = w" | "x \<in> set (running_part oid company_ids target faults w)"
      by auto
    then show ?thesis
    proof cases
      case 1
      with s0 st er show ?thesis by simp
    next
      case 2
      from running_part_members [OF s0 2] er show ?thesis by auto
    qed
  qed
  have any: "\<exists>opn'. operations_store y oid = Some opn' \<and>
      (error_message opn' \<noteq> None \<longrightarrow> status opn' = failed)" if "y \<in> set (?pre @ ?fin)" for y
  proof -
    from that consider "y \<in> set ?pre" | "y \<in> set ?fin"
      by auto
    then show ?thesis
    proof cases
      case 1
      from early [OF 1] show ?thesis by auto
    next
      case 2
      from closing_part_members [OF s0 2] er show ?thesis by auto
    qed
  qed
  have a: "?R x y" if "x \<in> set ?pre" "y \<in> set (?pre @ ?fin)" for x y
    using early [OF that(1)] any [OF that(2)] by (auto simp: settled_def)
  have b: "?R (?fin ! j) (?fin ! k)" if "j \<le> k" "k < length ?fin" for j k
  proof (cases rule: closing_part_cases [OF s0, of company_ids target faults, case_names ends_completed ends_failed])
    case (ends_completed wc oc)
    with that er show ?thesis by (simp add: settled_def)
  next
    case (ends_failed w5 w6 o5 o6 e)
    from that ends_failed(1) consider "j = 0" "k = 0" | "j = 0" "k = 1" | "j = 1" "k = 1"
      by (cases j; cases k) auto
    then show ?thesis
      using ends_failed er by cases (simp_all add: settled_def)
  qed
  show ?thesis
    unfolding tr using a b assms(4) assms(5) [unfolded tr]
    by (rule ordered_pairs_append [where R = ?R])
qed

lemma run_settled_raises:
  assumes s0: "operations_store w oid = Some opn"
    and st: "status opn = pending" and er: "error_message opn = None"
    and "j \<le> k" and "k < length (w # task_trace oid company_ids source target (Some e) faults w)"
  shows "settled (operations_store ((w # task_trace oid company_ids source target (Some e) faults w) ! j) oid)
                 (operations_store ((w # task_trace oid company_ids source target (Some e) faults w) ! k) oid)"
proof -
  let ?w1 = "assign oid (\<lambda>opn. opn\<lparr>status := in_progress\<rparr>) w"
  let ?w2 = "assign oid (\<lambda>opn. opn\<lparr>total := length company_ids\<rparr>) ?w1"
  let ?w5 = "assign oid (\<lambda>opn. opn\<lparr>status := failed\<rparr>) ?w2"
  let ?w6 = "assign oid (\<lambda>opn. opn\<lparr>error_message := Some e\<rparr>) ?w5"
  let ?pre = "[w, ?w1, ?w2]"
  let ?fin = "[?w5, ?w6]"
  let ?R = "\<lambda>x y. settled (operations_store x oid) (operations_store y oid)"
  have tr: "w # task_trace oid company_ids source target (Some e) faults w = ?pre @ ?fin"
    by (simp add: task_trace_query_raises)
  have s1: "operations_store ?w1 oid = Some (opn\<lparr>status := in_progress\<rparr>)"
    by (rule store_assign_same [OF s0])
  have s2: "operations_store ?w2 oid = Some (opn\<lparr>status := in_progress\<rparr>\<lparr>total := length company_ids\<rparr>)"
    by (rule store_assign_same [OF s1])
  have s5: "operations_store ?w5 oid =
      Some (opn\<lparr>status := in_progress\<rparr>\<lparr>total := length company_ids\<rparr>\<lparr>status := failed\<rparr>)"
    by (rule store_assign_same [OF s2])
  have s6: "operations_store ?w6 oid =
      Some (opn\<lparr>status := in_progress\<rparr>\<lparr>total := length company_ids\<rparr>\<lparr>status := failed\<rparr>
              \<lparr>error_message := Some e\<rparr>)"
    by (rule store_assign_same [OF s5])
  have a: "?R x y" if "x \<in> set ?pre" "y \<in> set (?pre @ ?fin)" for x y
    using that s0 s1 s2 s5 s6 st er by (auto simp: settled_def)
  have b: "?R (?fin ! j) (?fin ! k)" if "j \<le> k" "k < length ?fin" for j k
  proof -
    from that consider "j = 0" "k = 0" | "j = 0" "k = 1" | "j = 1" "k = 1"
      by (cases j; cases k) auto
    then show ?thesis
      using s5 s6 er by cases (simp_all add: settled_def)
  qed
  show ?thesis
    unfolding tr using a b assms(4) assms(5) [unfolded tr]
    by (rule ordered_pairs_append [where R = ?R])
qed

lemma run_settled:
  assumes "operations_store w oid = Some opn"
    and "status opn = pending" and "error_message opn = None"
    and "j \<le> k" and "k < length (w # task_trace oid company_ids source target qfault faults w)"
  shows "settled (operations_store ((w # task_trace oid company_ids source target qfault faults w) ! j) oid)
                 (operations_store ((w # task_trace oid company_ids source target qfault faults w) ! k) oid)"
proof (cases qfault)
  case None
  with assms show ?thesis
    using run_settled_returns [of w oid opn j k company_ids source target faults] by simp
next
  case (Some e)
  with assms show ?thesis
    using run_settled_raises [of w oid opn j k company_ids source target e faults] by simp
qed

lemma scenario_to_add: "companies_to_add (db scenario_world) [1, 2, 3] 2 = [1, 3]"
  by (simp add: companies_to_add_def query_associations_def scenario_world_def)

lemma scenario_polls:
  "map (\<lambda>w'. map_option (\<lambda>opn. (status opn, error_message opn)) (operations_store w' ''op''))
     (register ''op'' 3 scenario_world #
      task_trace ''op'' [1, 2, 3] 1 2 None ((\<lambda>_. None)(0 := Some ''connection lost'')) (register ''op'' 3 scenario_world)) =
      [Some (pending, None), Some (in_progress, None), Some (in_progress, None), Some (in_progress, None),
       Some (failed, None), Some (failed, Some ''connection lost'')]"
  by (simp add: task_trace_unfold prepared_def loop_exn_def loop_final_def final_world_def scenario_to_add add_commit_def not_duplicate_connection_lost Let_def
      assign_def register_def)

subsection \<open>C7: a terminal status is final, and the error message is set once\<close>

text \<open>
  C7. Take the worlds of an operation from its registration by either handler to the
  end of its task, whatever the store does to the query of the task and to the
  commits, and two of them, the one at \<open>j\<close> no later than the one at \<open>k\<close>.
  A status poll finds the operation in both. If the earlier status is completed or
  failed, the later status is the same; if the earlier poll reads an error message,
  the later one reads the same message, and the registration has none, so the message
  is set at most once; and a poll that reads an error message reads status failed.
\<close>

theorem terminal_state_is_final:
  assumes "add_companies_to_collection source target company_ids gfault sfault new_id w = Inr (w1, t) \<or>
           add_all_companies_to_collection source target gfault sfault new_id w = Inr (w1, t)"
    and "tr = w1 # run_task t qfault faults w1"
    and "j \<le> k" and "k < length tr"
  shows "\<exists>oj ok.
           get_operation_status (task_operation_id t) (tr ! j) = Inr oj \<and>
           get_operation_status (task_operation_id t) (tr ! k) = Inr ok \<and>
           (status oj \<in> {completed, failed} \<longrightarrow> status ok = status oj) \<and>
           (error_message oj \<noteq> None \<longrightarrow> error_message ok = error_message oj) \<and>
           (error_message ok \<noteq> None \<longrightarrow> status ok = failed) \<and>
           (j = 0 \<longrightarrow> error_message oj = None)"
proof -
  note reg = dispatch_registers [OF assms(1)]
  let ?o0 = "\<lparr>operation_id = new_id, status = pending, progress = 0,
               total = length (task_company_ids t), error_message = None\<rparr>"
  have s0: "operations_store w1 new_id = Some ?o0"
    using reg by (simp add: register_store)
  have tr: "tr = w1 # task_trace new_id (task_company_ids t) (task_source t) (task_target t) qfault faults w1"
    using reg assms(2) by (simp add: run_task_def)
  have "settled (operations_store (tr ! j) new_id) (operations_store (tr ! k) new_id)"
    unfolding tr
    by (rule run_settled [OF s0 _ _ assms(3) assms(4) [unfolded tr]]) simp_all
  moreover have "operations_store (tr ! 0) new_id = Some ?o0"
    using s0 by (simp add: tr)
  ultimately show ?thesis
    using reg by (auto simp: settled_def poll_iff split: option.splits)
qed

theorem terminal_state_is_final_witness:
  "\<exists>oj ok.
     get_operation_status ''op''
       ((register ''op'' 3 scenario_world #
         run_task \<lparr>task_operation_id = ''op'', task_company_ids = [1, 2, 3], task_source = 1, task_target = 2\<rparr> None
           ((\<lambda>_. None)(0 := Some ''connection lost'')) (register ''op'' 3 scenario_world)) ! 4) = Inr oj \<and>
     get_operation_status ''op''
       ((register ''op'' 3 scenario_world #
         run_task \<lparr>task_operation_id = ''op'', task_company_ids = [1, 2, 3], task_source = 1, task_target = 2\<rparr> None
           ((\<lambda>_. None)(0 := Some ''connection lost'')) (register ''op'' 3 scenario_world)) ! 5) = Inr ok \<and>
     status oj = failed \<and> status ok = status oj"
proof -
  let ?W = "register ''op'' 3 scenario_world"
  let ?T = "\<lparr>task_operation_id = ''op'', task_company_ids = [1, 2, 3], task_source = 1, task_target = 2\<rparr>"
  let ?F = "(\<lambda>_. None)(0 := Some ''connection lost'') :: nat \<Rightarrow> string option"
  let ?tr = "?W # run_task ?T None ?F ?W"
  let ?f = "\<lambda>w'. map_option (\<lambda>opn. (status opn, error_message opn)) (operations_store w' ''op'')"
  have d: "add_companies_to_collection 1 2 [] None None ''op'' scenario_world = Inr (?W, ?T) \<or>
        add_all_companies_to_collection 1 2 None None ''op'' scenario_world = Inr (?W, ?T)"
    by (rule disjI2) (rule add_all_scenario)
  have polls: "map ?f ?tr =
      [Some (pending, None), Some (in_progress, None), Some (in_progress, None), Some (in_progress, None),
       Some (failed, None), Some (failed, Some ''connection lost'')]"
    using scenario_polls by (simp add: run_task_def)
  have len: "length ?tr = 6"
    using arg_cong [OF polls, of length] by simp
  have "map ?f ?tr ! 4 = Some (failed, None)"
    by (simp only: polls) simp
  then have four: "?f (?tr ! 4) = Some (failed, None)"
    using len by (simp only: nth_map) 
  from terminal_state_is_final [OF d refl, where j = 4 and k = 5 and faults = ?F and qfault = None] len
  obtain oj ok where
    "get_operation_status ''op'' (?tr ! 4) = Inr oj"
    "get_operation_status ''op'' (?tr ! 5) = Inr ok"
    "status oj \<in> {completed, failed} \<longrightarrow> status ok = status oj"
    by auto
  moreover from this(1) four have "status oj = failed"
    by (auto simp: poll_iff)
  ultimately show ?thesis by blast
qed

lemma final_world_Nil: "final_world w [] = w"
  by (simp add: final_world_def)

lemma empty_working_set_run:
  assumes "operations_store w oid = Some opn"
    and "companies_to_add (db w) company_ids target = []"
  shows "operations_store (final_world w (task_trace oid company_ids source target None faults w)) oid =
           Some (opn\<lparr>status := completed, total := 0\<rparr>)"
    and "db (final_world w (task_trace oid company_ids source target None faults w)) = db w"
proof -
  let ?w3 = "prepared oid company_ids target w"
  have fin: "final_world w (task_trace oid company_ids source target None faults w) =
      assign oid (\<lambda>opn. opn\<lparr>status := completed\<rparr>) ?w3"
    by (simp add: final_world_task assms(2) loop_exn_def loop_final_def final_world_Nil)
  have s3: "operations_store ?w3 oid = Some (opn\<lparr>status := in_progress, total := 0\<rparr>)"
    using prepared_store [OF assms(1), of company_ids target] by (simp add: assms(2))
  show "operations_store (final_world w (task_trace oid company_ids source target None faults w)) oid =
           Some (opn\<lparr>status := completed, total := 0\<rparr>)"
    unfolding fin using store_assign_same [OF s3, of "\<lambda>opn. opn\<lparr>status := completed\<rparr>"] by simp
  show "db (final_world w (task_trace oid company_ids source target None faults w)) = db w"
    unfolding fin by simp
qed

lemma companies_to_add_Nil [simp]: "companies_to_add d [] target = []"
  by (simp add: companies_to_add_def)

lemma add_selected_query_raises:
  assumes "get_collection (db w) source \<noteq> None" and "get_collection (db w) target \<noteq> None"
    and "company_ids \<noteq> []"
  shows "add_companies_to_collection source target company_ids None (Some e) new_id w = Inl (Unhandled e)"
  using assms by (simp add: add_companies_to_collection_def all_rows_def Let_def)

subsection \<open>C10: an empty request\<close>

text \<open>
  C10, as amended. When both collections exist, a request with an empty list of
  company ids is accepted whatever the association table holds and whatever the store
  would do to the query of lines 171--176: that query is not run (for a non-empty
  request it is, and its exception leaves the handler:
  \<open>add_selected_query_raises\<close>). The operation is registered pending with total 0
  and progress 0. When the query of the task (lines 111--116) returns, the task leaves
  the operation completed with progress 0 and total 0, whatever the store would do to
  a commit; when that query raises, the task leaves it failed, with progress 0,
  total 0 and the exception's text as error message.
\<close>

theorem empty_request_completes:
  assumes "get_collection (db w) source \<noteq> None" and "get_collection (db w) target \<noteq> None"
  shows "\<exists>t. add_companies_to_collection source target [] None qfault new_id w =
               Inr (register new_id 0 w, t) \<and>
             task_operation_id t = new_id \<and>
             get_operation_status new_id (register new_id 0 w) =
               Inr \<lparr>operation_id = new_id, status = pending, progress = 0, total = 0,
                     error_message = None\<rparr> \<and>
             get_operation_status new_id
               (final_world (register new_id 0 w) (run_task t None faults (register new_id 0 w))) =
               Inr \<lparr>operation_id = new_id, status = completed, progress = 0, total = 0,
                     error_message = None\<rparr> \<and>
             get_operation_status new_id
               (final_world (register new_id 0 w) (run_task t (Some e) faults (register new_id 0 w))) =
               Inr \<lparr>operation_id = new_id, status = failed, progress = 0, total = 0,
                     error_message = Some e\<rparr>"
proof -
  let ?t = "\<lparr>task_operation_id = new_id, task_company_ids = [], task_source = source, task_target = target\<rparr>"
  let ?w1 = "register new_id 0 w"
  have st: "operations_store ?w1 new_id =
      Some \<lparr>operation_id = new_id, status = pending, progress = 0, total = 0, error_message = None\<rparr>"
    by (rule register_store)
  have "add_companies_to_collection source target [] None qfault new_id w = Inr (?w1, ?t)"
    using assms by (auto simp: add_companies_to_collection_def Let_def)
  moreover have "get_operation_status new_id ?w1 =
      Inr \<lparr>operation_id = new_id, status = pending, progress = 0, total = 0, error_message = None\<rparr>"
    by (simp add: poll_iff register_store)
  moreover have "get_operation_status new_id (final_world ?w1 (run_task ?t None faults ?w1)) =
      Inr \<lparr>operation_id = new_id, status = completed, progress = 0, total = 0, error_message = None\<rparr>"
    using empty_working_set_run(1) [OF st, where company_ids = "[]" and target = target
        and source = source and faults = faults]
    by (simp add: poll_iff run_task_def)
  moreover have "get_operation_status new_id (final_world ?w1 (run_task ?t (Some e) faults ?w1)) =
      Inr \<lparr>operation_id = new_id, status = failed, progress = 0, total = 0, error_message = Some e\<rparr>"
    using query_failure_run(1) [OF st, where company_ids = "[]" and target = target
        and source = source and faults = faults and e = e]
    by (simp add: poll_iff run_task_def)
  ultimately show ?thesis by (intro exI [of _ ?t]) simp
qed

theorem empty_request_completes_witness:
  "\<exists>t. add_companies_to_collection 1 2 [] None (Some ''connection lost'') ''op'' scenario_world =
         Inr (register ''op'' 0 scenario_world, t) \<and>
       task_operation_id t = ''op'' \<and>
       get_operation_status ''op'' (register ''op'' 0 scenario_world) =
         Inr \<lparr>operation_id = ''op'', status = pending, progress = 0, total = 0, error_message = None\<rparr> \<and>
       get_operation_status ''op''
         (final_world (register ''op'' 0 scenario_world)
            (run_task t None (\<lambda>_. Some ''connection lost'') (register ''op'' 0 scenario_world))) =
         Inr \<lparr>operation_id = ''op'', status = completed, progress = 0, total = 0, error_message = None\<rparr> \<and>
       get_operation_status ''op''
         (final_world (register ''op'' 0 scenario_world)
            (run_task t (Some ''timeout'') (\<lambda>_. Some ''connection lost'') (register ''op'' 0 scenario_world))) =
         Inr \<lparr>operation_id = ''op'', status = failed, progress = 0, total = 0,
               error_message = Some ''timeout''\<rparr>"
  using empty_request_completes [of scenario_world 1 2 "Some ''connection lost''" "''op''"
      "\<lambda>_. Some ''connection lost''" "''timeout''"]
  by (simp add: get_collection_def scenario_world_def)

text \<open>
  The claim as stated, that the operation of every empty request ends completed, fails
  in the run in which the query of the task raises: the empty request for S and T is
  accepted and registered, the query of lines 111--116 loses its connection, and the
  operation ends failed.
\<close>

theorem empty_request_query_failure_counterexample:
  "add_companies_to_collection 1 2 [] None None ''op'' scenario_world =
     Inr (register ''op'' 0 scenario_world,
          \<lparr>task_operation_id = ''op'', task_company_ids = [], task_source = 1, task_target = 2\<rparr>) \<and>
   get_operation_status ''op''
     (final_world (register ''op'' 0 scenario_world)
        (run_task \<lparr>task_operation_id = ''op'', task_company_ids = [], task_source = 1, task_target = 2\<rparr>
           (Some ''connection lost'') (\<lambda>_. None) (register ''op'' 0 scenario_world))) =
     Inr \<lparr>operation_id = ''op'', status = failed, progress = 0, total = 0,
           error_message = Some ''connection lost''\<rparr>"
proof -
  let ?W = "register ''op'' 0 scenario_world"
  have st: "operations_store ?W ''op'' =
      Some \<lparr>operation_id = ''op'', status = pending, progress = 0, total = 0, error_message = None\<rparr>"
    by (rule register_store)
  have "add_companies_to_collection 1 2 [] None None ''op'' scenario_world =
     Inr (?W, \<lparr>task_operation_id = ''op'', task_company_ids = [], task_source = 1, task_target = 2\<rparr>)"
    by (simp add: add_selected_no_faults get_collection_def scenario_world_def)
  moreover have "get_operation_status ''op''
     (final_world ?W (task_trace ''op'' [] 1 2 (Some ''connection lost'') (\<lambda>_. None) ?W)) =
     Inr \<lparr>operation_id = ''op'', status = failed, progress = 0, total = 0,
           error_message = Some ''connection lost''\<rparr>"
    using query_failure_run(1) [OF st, of "[]" 1 2 "''connection lost''" "\<lambda>_. None"]
    by (simp add: poll_iff)
  ultimately show ?thesis by (simp add: run_task_def)
qed

lemma store_assign:
  "operations_store (assign oid f w) k =
     (if k = oid then map_option f (operations_store w oid) else operations_store w k)"
  by (simp add: assign_def split: option.split)

lemma scenario_associations:
  "associations (db scenario_world) = [(1, 1), (2, 1), (3, 1), (2, 2)]"
  by (simp add: scenario_world_def)

subsection \<open>C8: the scenario of the specification\<close>

text \<open>
  C8. S (collection 1) has the companies 1, 2 and 3, and T (collection 2) has
  company 2, and the store fails nowhere. Adding all of S to T registers an operation with total 3; a poll
  after each step of the task reads the status, progress, total and error message
  listed below: the total becomes 2 before progress leaves 0, and the run ends
  completed with progress 2. The association table then has the rows (1, T) and
  (3, T) in addition, so T has the companies 1, 2 and 3.
\<close>

theorem add_all_scenario_completes:
  "add_all_companies_to_collection 1 2 None None ''op'' scenario_world =
     Inr (register ''op'' 3 scenario_world,
          \<lparr>task_operation_id = ''op'', task_company_ids = [1, 2, 3], task_source = 1, task_target = 2\<rparr>) \<and>
   map (\<lambda>w'. map_option (\<lambda>opn. (status opn, progress opn, total opn, error_message opn))
               (operations_store w' ''op''))
     (register ''op'' 3 scenario_world #
      run_task \<lparr>task_operation_id = ''op'', task_company_ids = [1, 2, 3], task_source = 1, task_target = 2\<rparr> None
        (\<lambda>_. None) (register ''op'' 3 scenario_world)) =
     [Some (pending, 0, 3, None), Some (in_progress, 0, 3, None), Some (in_progress, 0, 3, None),
      Some (in_progress, 0, 2, None), Some (in_progress, 0, 2, None), Some (in_progress, 1, 2, None),
      Some (in_progress, 1, 2, None), Some (in_progress, 2, 2, None), Some (completed, 2, 2, None)] \<and>
   associations (db (final_world (register ''op'' 3 scenario_world)
      (run_task \<lparr>task_operation_id = ''op'', task_company_ids = [1, 2, 3], task_source = 1, task_target = 2\<rparr> None
        (\<lambda>_. None) (register ''op'' 3 scenario_world)))) =
     [(1, 1), (2, 1), (3, 1), (2, 2), (1, 2), (3, 2)] \<and>
   set (map fst (filter (\<lambda>(company, coll). coll = 2)
      (associations (db (final_world (register ''op'' 3 scenario_world)
      (run_task \<lparr>task_operation_id = ''op'', task_company_ids = [1, 2, 3], task_source = 1, task_target = 2\<rparr> None
        (\<lambda>_. None) (register ''op'' 3 scenario_world))))))) = {1, 2, 3}"
proof -
  let ?W = "register ''op'' 3 scenario_world"
  let ?T = "\<lparr>task_operation_id = ''op'', task_company_ids = [1, 2, 3], task_source = 1, task_target = 2\<rparr>"
  have polls: "map (\<lambda>w'. map_option (\<lambda>opn. (status opn, progress opn, total opn, error_message opn))
               (operations_store w' ''op'')) (?W # run_task ?T None (\<lambda>_. None) ?W) =
     [Some (pending, 0, 3, None), Some (in_progress, 0, 3, None), Some (in_progress, 0, 3, None),
      Some (in_progress, 0, 2, None), Some (in_progress, 0, 2, None), Some (in_progress, 1, 2, None),
      Some (in_progress, 1, 2, None), Some (in_progress, 2, 2, None), Some (completed, 2, 2, None)]"
    by (simp add: run_task_def task_trace_unfold prepared_def loop_exn_def loop_final_def final_world_def scenario_to_add add_commit_def Let_def
        store_assign register_store scenario_associations)
  have rows: "associations (db (final_world ?W (run_task ?T None (\<lambda>_. None) ?W))) =
     [(1, 1), (2, 1), (3, 1), (2, 2), (1, 2), (3, 2)]"
    by (simp add: final_world_def run_task_def task_trace_unfold prepared_def loop_exn_def loop_final_def final_world_def scenario_to_add add_commit_def Let_def
        scenario_associations)
  have "set (map fst (filter (\<lambda>(company, coll). coll = 2) [(1, 1), (2, 1), (3, 1), (2, 2), (1, 2), (3::int, 2::nat)])) = {1, 2, 3}"
    by auto
  with add_all_scenario polls rows show ?thesis by simp
qed

lemma query_company_ids:
  "set (map fst (query_associations d company_ids collection_id)) =
     {c \<in> set company_ids. (c, collection_id) \<in> set (associations d)}"
  by (auto simp: query_associations_def image_iff)

lemma card_query_eq_length_iff:
  "card (set (map fst (query_associations d company_ids collection_id))) = length company_ids \<longleftrightarrow>
     distinct company_ids \<and> (\<forall>c\<in>set company_ids. (c, collection_id) \<in> set (associations d))"
proof -
  let ?V = "{c \<in> set company_ids. (c, collection_id) \<in> set (associations d)}"
  have sub: "?V \<subseteq> set company_ids" by auto
  have le1: "card ?V \<le> card (set company_ids)"
    by (rule card_mono) (use sub in auto)
  have le2: "card (set company_ids) \<le> length company_ids"
    by (rule card_length)
  show ?thesis
  proof
    assume "card (set (map fst (query_associations d company_ids collection_id))) = length company_ids"
    then have eq: "card ?V = length company_ids"
      by (simp only: query_company_ids)
    with le1 le2 have c1: "card (set company_ids) = length company_ids" and c2: "card ?V = card (set company_ids)"
      by simp_all
    from c1 have "distinct company_ids" by (rule card_distinct)
    moreover from c2 sub have "?V = set company_ids"
      by (intro card_subset_eq) auto
    ultimately show "distinct company_ids \<and> (\<forall>c\<in>set company_ids. (c, collection_id) \<in> set (associations d))"
      by auto
  next
    assume a: "distinct company_ids \<and> (\<forall>c\<in>set company_ids. (c, collection_id) \<in> set (associations d))"
    then have "?V = set company_ids" by auto
    then show "card (set (map fst (query_associations d company_ids collection_id))) = length company_ids"
      using a by (simp only: query_company_ids) (simp add: distinct_card)
  qed
qed

lemma add_selected_rejects_iff:
  assumes "get_collection (db w) source \<noteq> None" and "get_collection (db w) target \<noteq> None"
  shows "add_companies_to_collection source target company_ids None None new_id w =
           Inl (HTTPException 400 ''Some companies not found in source collection'') \<longleftrightarrow>
         \<not> (distinct company_ids \<and> (\<forall>c\<in>set company_ids. (c, source) \<in> set (associations (db w))))"
proof (cases "company_ids = []")
  case True
  with assms show ?thesis by (simp add: add_selected_no_faults)
next
  case False
  with assms show ?thesis
    unfolding add_selected_no_faults card_query_eq_length_iff by auto
qed

lemma add_selected_accepts_iff:
  assumes "get_collection (db w) source \<noteq> None" and "get_collection (db w) target \<noteq> None"
  shows "add_companies_to_collection source target company_ids None None new_id w =
           Inr (register new_id (length company_ids) w,
                \<lparr>task_operation_id = new_id, task_company_ids = company_ids,
                 task_source = source, task_target = target\<rparr>) \<longleftrightarrow>
         distinct company_ids \<and> (\<forall>c\<in>set company_ids. (c, source) \<in> set (associations (db w)))"
proof (cases "company_ids = []")
  case True
  with assms show ?thesis by (simp add: add_selected_no_faults)
next
  case False
  with assms show ?thesis
    unfolding add_selected_no_faults card_query_eq_length_iff by auto
qed

subsection \<open>C5: the membership check of the selected ids\<close>

text \<open>
  C5. The claim is that a request for existing collections is rejected with the 400
  error exactly when some requested id is not a member of the source. The handler,
  when the store answers its lookups and its query, compares the number of distinct members found with the length of the request
  (line 179), so it also rejects a request that names a member twice
  (\<open>add_selected_rejects_iff\<close>). At the request \<open>[1, 1]\<close> for the scenario, where
  company 1 is a member of the source, the handler answers that some companies were
  not found in the source collection.
\<close>

theorem add_selected_rejects_repeated_member:
  "(1, 1) \<in> set (associations (db scenario_world)) \<and>
   get_collection (db scenario_world) 1 = Some ''S'' \<and>
   get_collection (db scenario_world) 2 = Some ''T'' \<and>
   add_companies_to_collection 1 2 [1, 1] None None ''op'' scenario_world =
     Inl (HTTPException 400 ''Some companies not found in source collection'')"
  by (simp add: add_selected_no_faults get_collection_def query_associations_def
      scenario_world_def)

lemma distinct_companies_to_add:
  "distinct company_ids \<Longrightarrow> distinct (companies_to_add d company_ids target)"
  by (simp add: companies_to_add_eq)

lemma companies_to_add_fresh:
  "\<forall>c\<in>set (companies_to_add d company_ids target). (c, target) \<notin> set (associations d)"
  by (simp add: companies_to_add_eq)

lemma inserted_no_faults: "inserted (\<lambda>_. None) xs = xs"
  by (induction xs rule: rev_induct) (simp_all add: inserted_snoc)

lemma progress_after_no_faults: "progress_after (\<lambda>_. None) 0 n = n"
  by (cases n) simp_all

text \<open>A run that the store lets through, for a request without repetitions.\<close>

lemma undisturbed_run:
  assumes s0: "operations_store w oid = Some opn" and p0: "progress opn = 0"
    and dist: "distinct company_ids"
  shows "operations_store (final_world w (task_trace oid company_ids source target None (\<lambda>_. None) w)) oid =
           Some (opn\<lparr>status := completed,
                      total := length (companies_to_add (db w) company_ids target),
                      progress := length (companies_to_add (db w) company_ids target)\<rparr>)"
    and "db (final_world w (task_trace oid company_ids source target None (\<lambda>_. None) w)) =
           (db w)\<lparr>associations := associations (db w) @
              map (\<lambda>c. (c, target)) (companies_to_add (db w) company_ids target)\<rparr>"
proof -
  let ?xs = "companies_to_add (db w) company_ids target"
  let ?w3 = "prepared oid company_ids target w"
  let ?o3 = "opn\<lparr>status := in_progress, total := length ?xs\<rparr>"
  let ?wl = "loop_final oid target (\<lambda>_. None) 0 ?xs ?w3"
  have s3: "operations_store ?w3 oid = Some ?o3"
    by (simp add: prepared_store [OF s0])
  have fresh: "\<forall>c\<in>set ?xs. (c, target) \<notin> set (associations (db ?w3))"
    using companies_to_add_fresh [of "db w" company_ids target] by simp
  have nf: "\<forall>j<length ?xs. \<forall>m. (\<lambda>_. None) j = Some m \<longrightarrow> is_duplicate m"
    by simp
  from loop_no_fatal [OF distinct_companies_to_add [OF dist] fresh nf s3]
  have ex: "loop_exn oid target (\<lambda>_. None) 0 ?xs ?w3 = None"
    and dl: "db ?wl = (db w)\<lparr>associations := associations (db w) @ map (\<lambda>c. (c, target)) ?xs\<rparr>"
    and sl: "operations_store ?wl oid = Some (?o3\<lparr>progress := length ?xs\<rparr>)"
    using p0 by (simp_all add: inserted_no_faults progress_after_no_faults)
  have fin: "final_world w (task_trace oid company_ids source target None (\<lambda>_. None) w) =
      assign oid (\<lambda>opn. opn\<lparr>status := completed\<rparr>) ?wl"
    by (simp add: final_world_task ex)
  show "operations_store (final_world w (task_trace oid company_ids source target None (\<lambda>_. None) w)) oid =
           Some (opn\<lparr>status := completed, total := length ?xs, progress := length ?xs\<rparr>)"
    unfolding fin using store_assign_same [OF sl, of "\<lambda>opn. opn\<lparr>status := completed\<rparr>"] by simp
  show "db (final_world w (task_trace oid company_ids source target None (\<lambda>_. None) w)) =
           (db w)\<lparr>associations := associations (db w) @ map (\<lambda>c. (c, target)) ?xs\<rparr>"
    unfolding fin using dl by simp
qed

lemma accepted_request:
  assumes "add_companies_to_collection source target company_ids gfault sfault new_id w = Inr (w1, t)"
  shows "get_collection (db w) source \<noteq> None" and "get_collection (db w) target \<noteq> None"
    and "distinct company_ids"
    and "\<forall>c\<in>set company_ids. (c, source) \<in> set (associations (db w))"
    and "w1 = register new_id (length company_ids) w"
    and "t = \<lparr>task_operation_id = new_id, task_company_ids = company_ids,
              task_source = source, task_target = target\<rparr>"
proof -
  note nf = add_selected_returns(3) [OF assms]
  show c1: "get_collection (db w) source \<noteq> None" and c2: "get_collection (db w) target \<noteq> None"
    using nf by (auto simp: add_selected_no_faults split: if_splits)
  show w1: "w1 = register new_id (length company_ids) w"
    and t: "t = \<lparr>task_operation_id = new_id, task_company_ids = company_ids,
              task_source = source, task_target = target\<rparr>"
    using nf by (auto simp: add_selected_no_faults split: if_splits)
  from nf w1 t add_selected_accepts_iff [OF c1 c2, of company_ids new_id]
  show "distinct company_ids" and "\<forall>c\<in>set company_ids. (c, source) \<in> set (associations (db w))"
    by simp_all
qed

subsection \<open>C6: the same selection added twice\<close>

text \<open>
  C6. A selection is accepted and its task runs with no failure of the store (its
  query returns and no commit is made to fail); then the same selection is requested
  again for the same collections, again with no failure of the store. The second request is
  accepted too. The first run appends one row for each requested company that had
  none in the target, in request order, and ends completed with progress and total
  equal to their number \<open>n\<close>; the second run finds nothing to add, leaves the
  tables as they are and ends completed with total 0 and progress 0.
\<close>

theorem add_selected_twice:
  assumes "add_companies_to_collection source target company_ids gfault sfault id1 w = Inr (w1, t1)"
    and "wA = final_world w1 (run_task t1 None (\<lambda>_. None) w1)"
    and "n = length (companies_to_add (db w) company_ids target)"
  shows "\<exists>w2 t2.
           add_companies_to_collection source target company_ids None None id2 wA = Inr (w2, t2) \<and>
           associations (db wA) =
             associations (db w) @ map (\<lambda>c. (c, target)) (companies_to_add (db w) company_ids target) \<and>
           get_operation_status id1 wA =
             Inr \<lparr>operation_id = id1, status = completed, progress = n, total = n,
                   error_message = None\<rparr> \<and>
           get_operation_status id2 (final_world w2 (run_task t2 None (\<lambda>_. None) w2)) =
             Inr \<lparr>operation_id = id2, status = completed, progress = 0, total = 0,
                   error_message = None\<rparr> \<and>
           db (final_world w2 (run_task t2 None (\<lambda>_. None) w2)) = db wA"
proof -
  note acc = accepted_request [OF assms(1)]
  let ?xs = "companies_to_add (db w) company_ids target"
  let ?o1 = "\<lparr>operation_id = id1, status = pending, progress = 0,
               total = length company_ids, error_message = None\<rparr>"
  have s1: "operations_store w1 id1 = Some ?o1"
    using acc(5) by (simp add: register_store)
  have wA: "wA = final_world w1 (task_trace id1 company_ids source target None (\<lambda>_. None) w1)"
    using assms(2) acc(6) by (simp add: run_task_def)
  have db1: "db w1 = db w"
    using acc(5) by simp
  have stA: "operations_store wA id1 = Some (?o1\<lparr>status := completed, total := n, progress := n\<rparr>)"
    unfolding wA using undisturbed_run(1) [OF s1 _ acc(3), of source target] assms(3) db1 by simp
  have dbA: "db wA = (db w)\<lparr>associations := associations (db w) @ map (\<lambda>c. (c, target)) ?xs\<rparr>"
    unfolding wA using undisturbed_run(2) [OF s1 _ acc(3), of source target] db1 by simp
  have collA: "get_collection (db wA) source \<noteq> None" "get_collection (db wA) target \<noteq> None"
    using acc(1,2) by (simp_all add: dbA get_collection_def)
  have srcA: "\<forall>c\<in>set company_ids. (c, source) \<in> set (associations (db wA))"
    using acc(4) by (simp add: dbA)
  let ?w2 = "register id2 (length company_ids) wA"
  let ?t2 = "\<lparr>task_operation_id = id2, task_company_ids = company_ids,
               task_source = source, task_target = target\<rparr>"
  have second: "add_companies_to_collection source target company_ids None None id2 wA = Inr (?w2, ?t2)"
    using add_selected_accepts_iff [OF collA, of company_ids id2] acc(3) srcA by simp
  have tgtA: "\<forall>c\<in>set company_ids. (c, target) \<in> set (associations (db wA))"
    by (auto simp: dbA companies_to_add_eq)
  have none_left: "companies_to_add (db ?w2) company_ids target = []"
    using tgtA by (simp add: companies_to_add_eq)
  have s2: "operations_store ?w2 id2 =
      Some \<lparr>operation_id = id2, status = pending, progress = 0,
             total = length company_ids, error_message = None\<rparr>"
    by (rule register_store)
  have stB: "get_operation_status id2 (final_world ?w2 (run_task ?t2 None (\<lambda>_. None) ?w2)) =
      Inr \<lparr>operation_id = id2, status = completed, progress = 0, total = 0, error_message = None\<rparr>"
    using empty_working_set_run(1) [OF s2 none_left, of source "\<lambda>_. None"]
    by (simp add: poll_iff run_task_def)
  have dbB: "db (final_world ?w2 (run_task ?t2 None (\<lambda>_. None) ?w2)) = db wA"
    using empty_working_set_run(2) [OF s2 none_left, of source "\<lambda>_. None"]
    by (simp add: run_task_def)
  have "get_operation_status id1 wA =
      Inr \<lparr>operation_id = id1, status = completed, progress = n, total = n, error_message = None\<rparr>"
    using stA by (simp add: poll_iff)
  moreover have "associations (db wA) = associations (db w) @ map (\<lambda>c. (c, target)) ?xs"
    by (simp add: dbA)
  ultimately show ?thesis
    using second stB dbB by blast
qed

theorem add_selected_twice_witness:
  "\<exists>w2 t2.
     add_companies_to_collection 1 2 [1, 2, 3] None None ''second''
       (final_world (register ''first'' 3 scenario_world)
          (run_task \<lparr>task_operation_id = ''first'', task_company_ids = [1, 2, 3],
                     task_source = 1, task_target = 2\<rparr> None
             (\<lambda>_. None) (register ''first'' 3 scenario_world))) = Inr (w2, t2) \<and>
     associations (db (final_world (register ''first'' 3 scenario_world)
          (run_task \<lparr>task_operation_id = ''first'', task_company_ids = [1, 2, 3],
                     task_source = 1, task_target = 2\<rparr> None
             (\<lambda>_. None) (register ''first'' 3 scenario_world)))) =
       [(1, 1), (2, 1), (3, 1), (2, 2), (1, 2), (3, 2)] \<and>
     get_operation_status ''second'' (final_world w2 (run_task t2 None (\<lambda>_. None) w2)) =
       Inr \<lparr>operation_id = ''second'', status = completed, progress = 0, total = 0,
             error_message = None\<rparr>"
proof -
  let ?W = "register ''first'' 3 scenario_world"
  let ?T = "\<lparr>task_operation_id = ''first'', task_company_ids = [1, 2, 3],
              task_source = 1, task_target = 2\<rparr>"
  have first: "add_companies_to_collection 1 2 [1, 2, 3] None None ''first'' scenario_world = Inr (?W, ?T)"
    by (simp add: add_selected_no_faults get_collection_def query_associations_def
        scenario_world_def numeral_3_eq_3)
  from add_selected_twice [OF first refl refl, of "''second''"]
  show ?thesis
    by (auto simp: scenario_to_add scenario_associations)
qed

lemma length_inserted_le: "length (inserted faults xs) \<le> length xs"
  by (induction xs rule: rev_induct) (simp_all add: inserted_snoc)

lemma length_inserted_le_progress:
  "length (inserted faults xs) \<le> progress_after faults 0 (length xs)"
proof (induction xs rule: rev_induct)
  case Nil
  show ?case by simp
next
  case (snoc x xs)
  then show ?case
    using length_inserted_le [of faults xs] by (simp add: inserted_snoc)
qed

lemma inserted_all_ok:
  "\<forall>j<length xs. faults j = None \<Longrightarrow> inserted faults xs = xs"
  by (induction xs rule: rev_induct) (simp_all add: inserted_snoc)

lemma progress_after_all_ok:
  "\<forall>j<n. faults j = None \<Longrightarrow> progress_after faults 0 n = n"
  by (cases n) simp_all

lemma fatal_at:
  assumes "i < length xs"
    and "loop_exn oid target faults 0 (take i xs) w = None"
    and "faults i = Some e" and "\<not> is_duplicate e"
  shows "loop_exn oid target faults 0 xs w = Some e"
    and "loop_final oid target faults 0 xs w = loop_final oid target faults 0 (take i xs) w"
proof -
  obtain tr where tr: "insert_loop oid target faults 0 (take i xs) w = (tr, None)"
    using assms(2) by (cases "insert_loop oid target faults 0 (take i xs) w") (simp add: loop_exn_def)
  have "add_commit (db (final_world w tr)) (xs ! i, target) (faults i) = Inl e"
    using assms(3) by (simp add: add_commit_def)
  then have whole: "insert_loop oid target faults 0 xs w = (tr, Some e)"
    using assms(4) by (simp add: insert_loop_at [OF assms(1) tr])
  show "loop_exn oid target faults 0 xs w = Some e"
    by (simp add: loop_exn_def whole)
  show "loop_final oid target faults 0 xs w = loop_final oid target faults 0 (take i xs) w"
    by (simp add: loop_final_def whole tr)
qed

lemma scenario_u_associations:
  "associations (db scenario_world_u) = [(1, 1), (2, 1), (3, 1), (2, 2)]"
  by (simp add: scenario_world_u_def scenario_world_def)

lemma scenario_u_to_add: "companies_to_add (db scenario_world_u) [1, 2, 3] 3 = [1, 2, 3]"
  by (simp add: companies_to_add_def query_associations_def scenario_u_associations)

lemma scenario_u_dispatch:
  "add_companies_to_collection 1 3 [1, 2, 3] None None ''op'' scenario_world_u =
     Inr (register ''op'' 3 scenario_world_u,
          \<lparr>task_operation_id = ''op'', task_company_ids = [1, 2, 3], task_source = 1, task_target = 3\<rparr>)"
  by (simp add: add_selected_no_faults get_collection_def query_associations_def
      scenario_world_u_def scenario_world_def numeral_3_eq_3)

subsection \<open>C1: a fatal failure at position \<open>i\<close>\<close>

text \<open>
  C1, as amended. For a registered operation with progress 0 and a request without
  repeated ids, in a run whose query has returned: if the commit at position \<open>i\<close> of the working set raises an exception
  that does not name the uniqueness constraint, and every exception before it did,
  then the run ends with status failed and with the exception's text as error
  message; the rows it has added are those of the positions below \<open>i\<close> whose commit
  was not made to fail, so no later member is processed; and progress is one more than
  the last such position, or 0 if there is none. This is at least the number of
  successful insertions before \<open>i\<close>, and equal to it (both are \<open>i\<close>) when no
  insertion before \<open>i\<close> failed.
\<close>

theorem fatal_failure_stops_the_run:
  assumes "get_operation_status oid w = Inr opn" and "progress opn = 0"
    and "distinct company_ids"
    and "xs = companies_to_add (db w) company_ids target"
    and "i < length xs"
    and "faults i = Some e" and "\<not> is_duplicate e"
    and "\<forall>j<i. \<forall>m. faults j = Some m \<longrightarrow> is_duplicate m"
    and "wend = final_world w (task_trace oid company_ids source target None faults w)"
  shows "get_operation_status oid wend =
           Inr (opn\<lparr>status := failed, total := length xs, progress := progress_after faults 0 i,
                     error_message := Some e\<rparr>) \<and>
         db wend = (db w)\<lparr>associations := associations (db w) @
                    map (\<lambda>c. (c, target)) (inserted faults (take i xs))\<rparr> \<and>
         length (inserted faults (take i xs)) \<le> progress_after faults 0 i \<and>
         ((\<forall>j<i. faults j = None) \<longrightarrow>
            progress_after faults 0 i = i \<and> inserted faults (take i xs) = take i xs)"
proof -
  let ?w3 = "prepared oid company_ids target w"
  let ?o3 = "opn\<lparr>status := in_progress, total := length xs\<rparr>"
  let ?pre = "take i xs"
  let ?wl = "loop_final oid target faults 0 ?pre ?w3"
  have s0: "operations_store w oid = Some opn"
    using assms(1) by (simp add: poll_iff)
  have s3: "operations_store ?w3 oid = Some ?o3"
    by (simp add: prepared_store [OF s0] assms(4))
  have len: "length ?pre = i"
    using assms(5) by simp
  have d: "distinct ?pre"
    using distinct_companies_to_add [OF assms(3), of "db w" target] assms(4) by simp
  have fresh: "\<forall>c\<in>set ?pre. (c, target) \<notin> set (associations (db ?w3))"
    using companies_to_add_fresh [of "db w" company_ids target] assms(4)
    by (auto dest: in_set_takeD)
  have nf: "\<forall>j<length ?pre. \<forall>m. faults j = Some m \<longrightarrow> is_duplicate m"
    using assms(8) len by simp
  from loop_no_fatal [OF d fresh nf s3]
  have ex: "loop_exn oid target faults 0 ?pre ?w3 = None"
    and dl: "db ?wl = (db w)\<lparr>associations := associations (db w) @
                map (\<lambda>c. (c, target)) (inserted faults ?pre)\<rparr>"
    and sl: "operations_store ?wl oid = Some (?o3\<lparr>progress := progress_after faults 0 i\<rparr>)"
    using assms(2) len by simp_all
  note fatal = fatal_at [OF assms(5) ex assms(6,7)]
  have fin: "wend = assign oid (\<lambda>opn. opn\<lparr>error_message := Some e\<rparr>)
      (assign oid (\<lambda>opn. opn\<lparr>status := failed\<rparr>) ?wl)"
    using fatal by (simp add: assms(9) final_world_task assms(4) [symmetric])
  have "operations_store wend oid =
      Some (?o3\<lparr>progress := progress_after faults 0 i\<rparr>\<lparr>status := failed\<rparr>\<lparr>error_message := Some e\<rparr>)"
    unfolding fin by (rule store_assign_same [OF store_assign_same [OF sl]])
  then have poll: "get_operation_status oid wend =
      Inr (opn\<lparr>status := failed, total := length xs, progress := progress_after faults 0 i,
                error_message := Some e\<rparr>)"
    by (simp add: poll_iff)
  have dbf: "db wend = (db w)\<lparr>associations := associations (db w) @
      map (\<lambda>c. (c, target)) (inserted faults ?pre)\<rparr>"
    unfolding fin using dl by simp
  have le: "length (inserted faults ?pre) \<le> progress_after faults 0 i"
    using length_inserted_le_progress [of faults ?pre] len by simp
  have ok: "progress_after faults 0 i = i \<and> inserted faults ?pre = ?pre" if "\<forall>j<i. faults j = None"
    using that progress_after_all_ok [of i faults] inserted_all_ok [of ?pre faults] len by simp
  from poll dbf le ok show ?thesis by blast
qed

theorem fatal_failure_stops_the_run_witness:
  "get_operation_status ''op''
     (final_world (register ''op'' 3 scenario_world_u)
        (task_trace ''op'' [1, 2, 3] 1 3 None ((\<lambda>_. None)(0 := Some uq_violation, 2 := Some ''connection lost''))
           (register ''op'' 3 scenario_world_u))) =
     Inr \<lparr>operation_id = ''op'', status = failed, progress = 2, total = 3,
           error_message = Some ''connection lost''\<rparr> \<and>
   length (inserted ((\<lambda>_. None)(0 := Some uq_violation, 2 := Some ''connection lost'')) (take 2 [1, 2, 3])) = 1"
proof -
  define F :: "nat \<Rightarrow> string option"
    where "F = (\<lambda>_. None)(0 := Some uq_violation, 2 := Some ''connection lost'')"
  let ?W = "register ''op'' 3 scenario_world_u"
  let ?o = "\<lparr>operation_id = ''op'', status = pending, progress = 0, total = 3, error_message = None\<rparr>"
  have f0: "F 0 = Some uq_violation" and f1: "F (Suc 0) = None" and f2: "F 2 = Some ''connection lost''"
    by (simp_all add: F_def)
  have p: "get_operation_status ''op'' ?W = Inr ?o"
    by (simp add: poll_iff register_store)
  have xs: "[1, 2, 3] = companies_to_add (db ?W) [1, 2, 3] 3"
    by (simp add: scenario_u_to_add)
  have dups: "\<forall>j<2. \<forall>m. F j = Some m \<longrightarrow> is_duplicate m"
    by (auto simp: less_Suc_eq numeral_2_eq_2 f0 f1 is_duplicate_uq_violation)
  have pa: "progress_after F 0 2 = 2"
    by (simp add: numeral_2_eq_2 f0 f1)
  have ins: "length (inserted F (take 2 [1, 2, 3])) = 1"
    by (simp add: inserted_def f0 f1)
  have "get_operation_status ''op'' (final_world ?W (task_trace ''op'' [1, 2, 3] 1 3 None F ?W)) =
      Inr (?o\<lparr>status := failed, total := length [1, 2, 3 :: int], progress := progress_after F 0 2,
                error_message := Some ''connection lost''\<rparr>)"
    by (rule fatal_failure_stops_the_run [OF p _ _ xs _ f2 not_duplicate_connection_lost dups refl,
          THEN conjunct1]) simp_all
  then have "get_operation_status ''op'' (final_world ?W (task_trace ''op'' [1, 2, 3] 1 3 None F ?W)) =
      Inr \<lparr>operation_id = ''op'', status = failed, progress = 2, total = 3,
           error_message = Some ''connection lost''\<rparr>"
    by (simp add: pa)
  with ins show ?thesis
    unfolding F_def by blast
qed

text \<open>
  The claim as stated, with progress equal to the number of successful insertions
  before \<open>i\<close>, fails when a duplicate was skipped before a success. The selection
  \<open>[1, 2, 3]\<close> is added from S to the empty collection U; the commit at position 0
  raises a uniqueness violation (another writer has added the company meanwhile),
  the commit at position 1 succeeds and the commit at position 2 loses its
  connection. The run has added the single row \<open>(2, U)\<close>, and the operation ends
  failed with progress 2.
\<close>

theorem fatal_failure_progress_counterexample:
  "add_companies_to_collection 1 3 [1, 2, 3] None None ''op'' scenario_world_u =
     Inr (register ''op'' 3 scenario_world_u,
          \<lparr>task_operation_id = ''op'', task_company_ids = [1, 2, 3], task_source = 1, task_target = 3\<rparr>) \<and>
   get_operation_status ''op''
     (final_world (register ''op'' 3 scenario_world_u)
        (run_task \<lparr>task_operation_id = ''op'', task_company_ids = [1, 2, 3], task_source = 1, task_target = 3\<rparr> None
           ((\<lambda>_. None)(0 := Some uq_violation, 2 := Some ''connection lost''))
           (register ''op'' 3 scenario_world_u))) =
     Inr \<lparr>operation_id = ''op'', status = failed, progress = 2, total = 3,
           error_message = Some ''connection lost''\<rparr> \<and>
   associations (db (final_world (register ''op'' 3 scenario_world_u)
        (run_task \<lparr>task_operation_id = ''op'', task_company_ids = [1, 2, 3], task_source = 1, task_target = 3\<rparr> None
           ((\<lambda>_. None)(0 := Some uq_violation, 2 := Some ''connection lost''))
           (register ''op'' 3 scenario_world_u)))) =
     associations (db scenario_world_u) @ [(2, 3)]"
proof -
  let ?W = "register ''op'' 3 scenario_world_u"
  let ?T = "\<lparr>task_operation_id = ''op'', task_company_ids = [1, 2, 3], task_source = 1, task_target = 3\<rparr>"
  let ?F = "(\<lambda>_. None)(0 := Some uq_violation, 2 := Some ''connection lost'') :: nat \<Rightarrow> string option"
  have poll: "get_operation_status ''op'' (final_world ?W (run_task ?T None ?F ?W)) =
     Inr \<lparr>operation_id = ''op'', status = failed, progress = 2, total = 3,
           error_message = Some ''connection lost''\<rparr>"
    by (simp add: final_world_def run_task_def task_trace_unfold prepared_def loop_exn_def loop_final_def final_world_def scenario_u_to_add add_commit_def Let_def
        get_operation_status_def store_assign register_store scenario_u_associations
        is_duplicate_uq_violation not_duplicate_connection_lost)
  have rows: "associations (db (final_world ?W (run_task ?T None ?F ?W))) =
     associations (db scenario_world_u) @ [(2, 3)]"
    by (simp add: final_world_def run_task_def task_trace_unfold prepared_def loop_exn_def loop_final_def final_world_def scenario_u_to_add add_commit_def Let_def
        scenario_u_associations is_duplicate_uq_violation not_duplicate_connection_lost)
  from scenario_u_dispatch poll rows show ?thesis by simp
qed

lemma final_poll_exn:
  assumes "operations_store w oid = Some opn"
    and "loop_exn oid target faults 0 (companies_to_add (db w) company_ids target)
           (prepared oid company_ids target w) = Some e"
  shows "\<exists>p. (p = progress opn \<or> (0 < p \<and> p \<le> length (companies_to_add (db w) company_ids target))) \<and>
           operations_store (final_world w (task_trace oid company_ids source target None faults w)) oid =
             Some (opn\<lparr>status := failed,
                        total := length (companies_to_add (db w) company_ids target), progress := p,
                        error_message := Some e\<rparr>)"
proof -
  let ?xs = "companies_to_add (db w) company_ids target"
  let ?w3 = "prepared oid company_ids target w"
  let ?o3 = "opn\<lparr>status := in_progress, total := length ?xs\<rparr>"
  have s3: "operations_store ?w3 oid = Some ?o3"
    by (simp add: prepared_store [OF assms(1)])
  from loop_final_poll [OF s3, of 0 ?xs target faults] obtain p where
    p: "p = progress ?o3 \<or> (0 < p \<and> p \<le> 0 + length ?xs)"
    and sf: "operations_store (loop_final oid target faults 0 ?xs ?w3) oid = Some (?o3\<lparr>progress := p\<rparr>)"
    by blast
  have "operations_store (final_world w (task_trace oid company_ids source target None faults w)) oid =
      Some (((?o3\<lparr>progress := p\<rparr>)\<lparr>status := failed\<rparr>)\<lparr>error_message := Some e\<rparr>)"
    unfolding final_world_task assms(2) option.case
    by (rule store_assign_same [OF store_assign_same [OF sf]])
  with p show ?thesis by (intro exI [of _ p]) simp
qed

lemma add_commit_Inr:
  "add_commit d row fault = Inr d' \<Longrightarrow>
   fault = None \<and> row \<notin> set (associations d) \<and> d' = d\<lparr>associations := associations d @ [row]\<rparr>"
  by (auto simp: add_commit_def split: option.splits if_splits)

subsection \<open>C4: a duplicate failure is skipped\<close>

text \<open>
  C4. The loop has reached position \<open>i\<close> of the working set in the world \<open>wi\<close>, and
  the commit of the record at \<open>i\<close> raises an exception that names the uniqueness
  constraint. Then:

  \<^item> the loop run on the first \<open>i + 1\<close> records has the trace of the first \<open>i\<close> and
    raises nothing: the record leaves no world, so the table and what a poll reads
    (status in progress, no error message, the same progress) are those of \<open>wi\<close>;
  \<^item> the worker goes on with the next member: the whole loop continues that trace with
    the run of the remaining members from \<open>wi\<close>, and when the next member's commit
    succeeds, the first world after \<open>wi\<close> has that member's row appended to the table
    and the one after it reads progress \<open>i + 2\<close>, still in progress and without an
    error message;
  \<^item> the task ends failed only if a later member raised: the final status is completed
    when the remaining members raise nothing, and the final error message is the
    exception \<open>r\<close> of the remaining members, never the duplicate's.
\<close>

theorem duplicate_failure_is_skipped:
  assumes "get_operation_status oid w = Inr opn"
    and "error_message opn = None"
    and "xs = companies_to_add (db w) company_ids target"
    and "w3 = prepared oid company_ids target w"
    and "i < length xs"
    and "insert_loop oid target faults 0 (take i xs) w3 = (tr, None)"
    and "wi = final_world w3 tr"
    and "add_commit (db wi) (xs ! i, target) (faults i) = Inl e"
    and "is_duplicate e"
    and "insert_loop oid target faults (Suc i) (drop (Suc i) xs) wi = (tr', r)"
    and "wend = final_world w (task_trace oid company_ids source target None faults w)"
  shows "insert_loop oid target faults 0 (take (Suc i) xs) w3 = (tr, None) \<and>
         insert_loop oid target faults 0 xs w3 = (tr @ tr', r) \<and>
         (\<exists>opi. get_operation_status oid wi = Inr opi \<and>
                status opi = in_progress \<and> error_message opi = None) \<and>
         (Suc i < length xs \<longrightarrow>
            (\<forall>d. add_commit (db wi) (xs ! Suc i, target) (faults (Suc i)) = Inr d \<longrightarrow>
               d = (db wi)\<lparr>associations := associations (db wi) @ [(xs ! Suc i, target)]\<rparr> \<and>
               (\<exists>w2 tr'' op2.
                  tr' = wi\<lparr>db := d\<rparr> # w2 # tr'' \<and>
                  get_operation_status oid w2 = Inr op2 \<and> progress op2 = i + 2 \<and>
                  status op2 = in_progress \<and> error_message op2 = None))) \<and>
         (\<exists>opn'. get_operation_status oid wend = Inr opn' \<and>
                 status opn' = (if r = None then completed else failed) \<and>
                 error_message opn' = r)"
proof -
  let ?o3 = "opn\<lparr>status := in_progress, total := length xs\<rparr>"
  have s0: "operations_store w oid = Some opn"
    using assms(1) by (simp add: poll_iff)
  have s3: "operations_store w3 oid = Some ?o3"
    by (simp add: assms(3,4) prepared_store [OF s0])
  from loop_final_poll [OF s3, of 0 "take i xs" target faults] obtain p where
    si: "operations_store wi oid = Some (?o3\<lparr>progress := p\<rparr>)"
    using assms(6,7) by (auto simp: loop_final_def)
  have one: "insert_loop oid target faults 0 (take (Suc i) xs) w3 = (tr, None)"
  proof -
    have "take (Suc i) xs = take i xs @ [xs ! i]"
      using assms(5) by (rule take_Suc_conv_app_nth)
    moreover have "insert_loop oid target faults i [xs ! i] wi = ([], None)"
      using assms(8,9) by simp
    ultimately show ?thesis
      using assms(5,6,7) by (simp add: insert_loop_append final_world_def min_def)
  qed
  have whole: "insert_loop oid target faults 0 xs w3 = (tr @ tr', r)"
    using assms(7,8,9,10) by (simp add: insert_loop_at [OF assms(5,6)])
  have here: "\<exists>opi. get_operation_status oid wi = Inr opi \<and>
      status opi = in_progress \<and> error_message opi = None"
    using si assms(2) by (simp add: poll_iff)
  have "next": "d = (db wi)\<lparr>associations := associations (db wi) @ [(xs ! Suc i, target)]\<rparr> \<and>
      (\<exists>w2 tr'' op2. tr' = wi\<lparr>db := d\<rparr> # w2 # tr'' \<and>
         get_operation_status oid w2 = Inr op2 \<and> progress op2 = i + 2 \<and>
         status op2 = in_progress \<and> error_message op2 = None)"
    if lt: "Suc i < length xs"
      and ok: "add_commit (db wi) (xs ! Suc i, target) (faults (Suc i)) = Inr d" for d
  proof -
    let ?w1 = "wi\<lparr>db := d\<rparr>"
    let ?w2 = "assign oid (\<lambda>opn. opn\<lparr>progress := Suc i + 1\<rparr>) ?w1"
    obtain tr'' r'' where
      rest: "insert_loop oid target faults (Suc (Suc i)) (drop (Suc (Suc i)) xs) ?w2 = (tr'', r'')"
      by (cases "insert_loop oid target faults (Suc (Suc i)) (drop (Suc (Suc i)) xs) ?w2")
    have "drop (Suc i) xs = xs ! Suc i # drop (Suc (Suc i)) xs"
      using lt by (simp add: Cons_nth_drop_Suc)
    then have "insert_loop oid target faults (Suc i) (drop (Suc i) xs) wi = (?w1 # ?w2 # tr'', r'')"
      using ok rest by (simp add: Let_def)
    with assms(10) have tr': "tr' = ?w1 # ?w2 # tr''"
      by simp
    have "operations_store ?w1 oid = Some (?o3\<lparr>progress := p\<rparr>)"
      using si by simp
    then have "operations_store ?w2 oid = Some (?o3\<lparr>progress := p\<rparr>\<lparr>progress := Suc i + 1\<rparr>)"
      by (rule store_assign_same)
    then have "get_operation_status oid ?w2 = Inr (?o3\<lparr>progress := i + 2\<rparr>)"
      by (simp add: poll_iff)
    with tr' assms(2) add_commit_Inr [OF ok] show ?thesis
      by auto
  qed
  have fin: "\<exists>opn'. get_operation_status oid wend = Inr opn' \<and>
      status opn' = (if r = None then completed else failed) \<and> error_message opn' = r"
  proof (cases r)
    case None
    then have "loop_exn oid target faults 0 (companies_to_add (db w) company_ids target)
        (prepared oid company_ids target w) = None"
      using whole assms(3,4) by (simp add: loop_exn_def)
    from final_poll_no_exn [OF s0 this, of source] assms(2,11) None show ?thesis
      by (auto simp: poll_iff)
  next
    case (Some e')
    then have "loop_exn oid target faults 0 (companies_to_add (db w) company_ids target)
        (prepared oid company_ids target w) = Some e'"
      using whole assms(3,4) by (simp add: loop_exn_def)
    from final_poll_exn [OF s0 this, of source] assms(11) Some show ?thesis
      by (auto simp: poll_iff)
  qed
  from one whole here "next" fin show ?thesis
    by blast
qed

theorem duplicate_failure_is_skipped_witness:
  "insert_loop ''op'' 2 ((\<lambda>_. None)(0 := Some uq_violation)) 0 [1, 3]
       (prepared ''op'' [1, 2, 3] 2 (register ''op'' 3 scenario_world)) =
     ([(prepared ''op'' [1, 2, 3] 2 (register ''op'' 3 scenario_world))
         \<lparr>db := (db scenario_world)\<lparr>associations := [(1, 1), (2, 1), (3, 1), (2, 2), (3, 2)]\<rparr>\<rparr>,
       assign ''op'' (\<lambda>opn. opn\<lparr>progress := 2\<rparr>)
         ((prepared ''op'' [1, 2, 3] 2 (register ''op'' 3 scenario_world))
            \<lparr>db := (db scenario_world)\<lparr>associations := [(1, 1), (2, 1), (3, 1), (2, 2), (3, 2)]\<rparr>\<rparr>)],
      None) \<and>
   get_operation_status ''op''
     (assign ''op'' (\<lambda>opn. opn\<lparr>progress := 2\<rparr>)
         ((prepared ''op'' [1, 2, 3] 2 (register ''op'' 3 scenario_world))
            \<lparr>db := (db scenario_world)\<lparr>associations := [(1, 1), (2, 1), (3, 1), (2, 2), (3, 2)]\<rparr>\<rparr>)) =
     Inr \<lparr>operation_id = ''op'', status = in_progress, progress = 2, total = 2, error_message = None\<rparr> \<and>
   (\<exists>opn'. get_operation_status ''op''
              (final_world (register ''op'' 3 scenario_world)
                 (task_trace ''op'' [1, 2, 3] 1 2 None ((\<lambda>_. None)(0 := Some uq_violation))
                    (register ''op'' 3 scenario_world))) = Inr opn' \<and>
           status opn' = completed \<and> error_message opn' = None)"
proof -
  define F :: "nat \<Rightarrow> string option" where "F = (\<lambda>_. None)(0 := Some uq_violation)"
  let ?W = "register ''op'' 3 scenario_world"
  let ?W3 = "prepared ''op'' [1, 2, 3] 2 ?W"
  let ?D = "(db scenario_world)\<lparr>associations := [(1, 1), (2, 1), (3, 1), (2, 2), (3, 2)]\<rparr>"
  let ?W2 = "assign ''op'' (\<lambda>opn. opn\<lparr>progress := 2\<rparr>) (?W3\<lparr>db := ?D\<rparr>)"
  let ?o = "\<lparr>operation_id = ''op'', status = pending, progress = 0, total = 3, error_message = None\<rparr>"
  have f0: "F 0 = Some uq_violation" and f1: "F (Suc 0) = None"
    by (simp_all add: F_def)
  have p: "get_operation_status ''op'' ?W = Inr ?o"
    by (simp add: poll_iff register_store)
  have xs: "[1, 3] = companies_to_add (db ?W) [1, 2, 3] 2"
    by (simp add: scenario_to_add)
  have pre: "insert_loop ''op'' 2 F 0 (take 0 [1, 3]) ?W3 = ([], None)"
    by simp
  have commit: "add_commit (db (final_world ?W3 [])) ([1, 3] ! 0, 2) (F 0) = Inl uq_violation"
    by (simp add: add_commit_def f0)
  have rest: "insert_loop ''op'' 2 F (Suc 0) (drop (Suc 0) [1, 3]) (final_world ?W3 []) =
      ([?W3\<lparr>db := ?D\<rparr>, ?W2], None)"
    by (simp add: final_world_Nil add_commit_def f1 scenario_associations Let_def numeral_2_eq_2)
  have poll2: "get_operation_status ''op'' ?W2 =
      Inr \<lparr>operation_id = ''op'', status = in_progress, progress = 2, total = 2, error_message = None\<rparr>"
    by (simp add: get_operation_status_def store_assign prepared_def register_store scenario_to_add)
  from duplicate_failure_is_skipped [OF p _ xs refl _ pre refl commit is_duplicate_uq_violation rest refl,
      where source = 1]
  have "insert_loop ''op'' 2 F 0 [1, 3] ?W3 = ([] @ [?W3\<lparr>db := ?D\<rparr>, ?W2], None)"
    and "\<exists>opn'. get_operation_status ''op''
           (final_world ?W (task_trace ''op'' [1, 2, 3] 1 2 None F ?W)) = Inr opn' \<and>
         status opn' = (if (None :: string option) = None then completed else failed) \<and>
         error_message opn' = None"
    by simp_all
  with poll2 show ?thesis
    unfolding F_def by simp
qed

subsection \<open>C3: the run in which the query of the task raises\<close>

text \<open>
  The claim C3 as stated, for every dispatched operation, fails in the run in which
  the query of lines 111--116 raises. In the scenario, all of S is added to T, so
  \<open>N = 3\<close> and \<open>M = 1\<close>; the query loses its connection, and a poll after each
  step reads the status, progress, total and error message listed below: the total
  is 3 throughout and never \<open>N - M = 2\<close>.
\<close>

theorem total_query_failure_counterexample:
  "add_all_companies_to_collection 1 2 None None ''op'' scenario_world =
     Inr (register ''op'' 3 scenario_world,
          \<lparr>task_operation_id = ''op'', task_company_ids = [1, 2, 3], task_source = 1, task_target = 2\<rparr>) \<and>
   map (\<lambda>w'. map_option (\<lambda>opn. (status opn, progress opn, total opn, error_message opn))
               (operations_store w' ''op''))
     (register ''op'' 3 scenario_world #
      run_task \<lparr>task_operation_id = ''op'', task_company_ids = [1, 2, 3], task_source = 1, task_target = 2\<rparr>
        (Some ''connection lost'') (\<lambda>_. None) (register ''op'' 3 scenario_world)) =
     [Some (pending, 0, 3, None), Some (in_progress, 0, 3, None), Some (in_progress, 0, 3, None),
      Some (failed, 0, 3, None), Some (failed, 0, 3, Some ''connection lost'')] \<and>
   length [1, 2, 3 :: int] -
     length (filter (\<lambda>c. (c, 2) \<in> set (associations (db scenario_world))) [1, 2, 3]) = 2"
proof -
  let ?W = "register ''op'' 3 scenario_world"
  let ?T = "\<lparr>task_operation_id = ''op'', task_company_ids = [1, 2, 3], task_source = 1, task_target = 2\<rparr>"
  have polls: "map (\<lambda>w'. map_option (\<lambda>opn. (status opn, progress opn, total opn, error_message opn))
               (operations_store w' ''op''))
     (?W # run_task ?T (Some ''connection lost'') (\<lambda>_. None) ?W) =
     [Some (pending, 0, 3, None), Some (in_progress, 0, 3, None), Some (in_progress, 0, 3, None),
      Some (failed, 0, 3, None), Some (failed, 0, 3, Some ''connection lost'')]"
    by (simp add: run_task_def task_trace_query_raises store_assign register_store)
  have nm: "length [1, 2, 3 :: int] -
     length (filter (\<lambda>c. (c, 2) \<in> set (associations (db scenario_world))) [1, 2, 3]) = 2"
    by (simp add: scenario_associations)
  from add_all_scenario polls nm show ?thesis by simp
qed

end
